theory Spec2Isabelle
  imports Main "HOL-Library.Word"
begin

section \<open>Strings\<close>

text \<open>
  A Go string is a sequence of bytes; it is modelled as a \<open>string\<close>, whose characters
  are the bytes. The functions of package \<open>strings\<close> that convenient_client.go calls:
\<close>

definition HasPrefix :: "string \<Rightarrow> string \<Rightarrow> bool" where
  "HasPrefix s pre = (take (length pre) s = pre)"

definition TrimPrefix :: "string \<Rightarrow> string \<Rightarrow> string" where
  "TrimPrefix s pre = (if HasPrefix s pre then drop (length pre) s else s)"

definition HasSuffix :: "string \<Rightarrow> string \<Rightarrow> bool" where
  "HasSuffix s suf = (length suf \<le> length s \<and> drop (length s - length suf) s = suf)"

definition TrimSuffix :: "string \<Rightarrow> string \<Rightarrow> string" where
  "TrimSuffix s suf = (if HasSuffix s suf then take (length s - length suf) s else s)"

fun Contains :: "string \<Rightarrow> string \<Rightarrow> bool" where
  "Contains [] substr = (substr = [])"
| "Contains (c # cs) substr = (HasPrefix (c # cs) substr \<or> Contains cs substr)"

subsection \<open>Decimal integers: \<open>strconv.Itoa\<close>, the verb \<open>%d\<close> of \<open>fmt.Sprintf\<close>, \<open>strconv.ParseInt\<close>\<close>

definition digit_char :: "int \<Rightarrow> char" where
  "digit_char d = char_of (48 + d)"

function FormatUint :: "int \<Rightarrow> string" where
  "FormatUint u = (if u < 10 then [digit_char u] else FormatUint (u div 10) @ [digit_char (u mod 10)])"
  by pat_completeness auto
termination
  by (relation "measure nat") auto

declare FormatUint.simps [simp del]

definition Itoa :: "int \<Rightarrow> string" where
  "Itoa i = (if i < 0 then CHR ''-'' # FormatUint (- i) else FormatUint i)"

definition isDigit :: "char \<Rightarrow> bool" where
  "isDigit c = (48 \<le> (of_char c :: int) \<and> (of_char c :: int) \<le> 57)"

text \<open>
  \<open>strconv.ParseUint(s, 10, 64)\<close>: a syntax error on the empty string and on any byte that
  is not a decimal digit (an underscore is legal in base 0 only), a range error from
  \<open>2^64 = 18446744073709551616\<close> on. \<open>None\<close> is the error.
\<close>

definition ParseUint :: "string \<Rightarrow> int option" where
  "ParseUint s =
     (if s = [] \<or> \<not> list_all isDigit s then None
      else let un = foldl (\<lambda>n c. n * 10 + (of_char c - 48)) (0::int) s
           in if 18446744073709551616 \<le> un then None else Some un)"

text \<open>
  \<open>strconv.ParseInt(s, 10, 64)\<close>: an optional sign, then \<open>ParseUint\<close>, then the range
  of a signed 64-bit integer, from \<open>- 2^63\<close> to \<open>2^63 - 1\<close>.
\<close>

definition ParseInt :: "string \<Rightarrow> int option" where
  "ParseInt s =
     (if s = [] then None
      else let neg = (hd s = CHR ''-'');
               s1 = (if hd s = CHR ''+'' \<or> hd s = CHR ''-'' then tl s else s)
           in case ParseUint s1 of
                None \<Rightarrow> None
              | Some un \<Rightarrow>
                  if \<not> neg \<and> 9223372036854775808 \<le> un then None
                  else if neg \<and> 9223372036854775808 < un then None
                  else Some (if neg then - un else un))"

subsection \<open>Runes: \<open>utf8.DecodeRune\<close> and \<open>utf8.AppendRune\<close>\<close>

text \<open>
  The scanner of package \<open>fmt\<close> reads its input rune by rune. A rune is a Unicode code
  point, here an \<open>int\<close>; bytes that are not the UTF-8 encoding of a code point decode to
  \<open>RuneError\<close>, one byte at a time.
\<close>

definition RuneError :: int where
  "RuneError = 0xFFFD"

fun DecodeRune :: "string \<Rightarrow> int \<times> nat" where
  "DecodeRune [] = (RuneError, 0)"
| "DecodeRune (c0 # cs) =
     (let s0 = (of_char c0 :: int) in
      if s0 < 0x80 then (s0, 1)
      else if s0 < 0xC2 \<or> 0xF4 < s0 then (RuneError, 1)
      else case cs of
        [] \<Rightarrow> (RuneError, 1)
      | c1 # cs1 \<Rightarrow>
         (let s1 = (of_char c1 :: int);
              lo = (if s0 = 0xE0 then 0xA0 else if s0 = 0xF0 then 0x90 else 0x80);
              hi = (if s0 = 0xED then 0x9F else if s0 = 0xF4 then 0x8F else 0xBF) in
          if s1 < lo \<or> hi < s1 then (RuneError, 1)
          else if s0 < 0xE0 then ((s0 mod 32) * 64 + s1 mod 64, 2)
          else case cs1 of
            [] \<Rightarrow> (RuneError, 1)
          | c2 # cs2 \<Rightarrow>
             (let s2 = (of_char c2 :: int) in
              if s2 < 0x80 \<or> 0xBF < s2 then (RuneError, 1)
              else if s0 < 0xF0 then ((s0 mod 16) * 4096 + (s1 mod 64) * 64 + s2 mod 64, 3)
              else case cs2 of
                [] \<Rightarrow> (RuneError, 1)
              | c3 # cs3 \<Rightarrow>
                 (let s3 = (of_char c3 :: int) in
                  if s3 < 0x80 \<or> 0xBF < s3 then (RuneError, 1)
                  else ((s0 mod 8) * 262144 + (s1 mod 64) * 4096 + (s2 mod 64) * 64
                          + s3 mod 64, 4)))))"

definition AppendRune :: "int \<Rightarrow> string" where
  "AppendRune r =
     (if r \<le> 0x7F then [char_of r]
      else if r \<le> 0x7FF then [char_of (0xC0 + r div 64), char_of (0x80 + r mod 64)]
      else if 0x10FFFF < r \<or> (0xD800 \<le> r \<and> r \<le> 0xDFFF) then
        [char_of (0xEF::int), char_of (0xBF::int), char_of (0xBD::int)]
      else if r \<le> 0xFFFF then
        [char_of (0xE0 + r div 4096), char_of (0x80 + (r div 64) mod 64),
         char_of (0x80 + r mod 64)]
      else
        [char_of (0xF0 + r div 262144), char_of (0x80 + (r div 4096) mod 64),
         char_of (0x80 + (r div 64) mod 64), char_of (0x80 + r mod 64)])"

function decodeRunes :: "string \<Rightarrow> int list" where
  "decodeRunes s =
     (if s = [] then [] else fst (DecodeRune s) # decodeRunes (drop (snd (DecodeRune s)) s))"
  by pat_completeness auto
termination
proof (relation "measure length")
  fix s :: string
  assume "s \<noteq> []"
  then have "0 < snd (DecodeRune s)"
    by (cases s) (auto simp: Let_def split: list.splits)
  with \<open>s \<noteq> []\<close> show "(drop (snd (DecodeRune s)) s, s) \<in> measure length"
    by simp
qed simp

declare decodeRunes.simps [simp del]

text \<open>The table \<open>space\<close> of fmt/scan.go, which \<open>isSpace\<close> searches.\<close>

definition isSpace :: "int \<Rightarrow> bool" where
  "isSpace r =
     ((0x0009 \<le> r \<and> r \<le> 0x000D) \<or> r = 0x0020 \<or> r = 0x0085 \<or> r = 0x00A0 \<or> r = 0x1680
      \<or> (0x2000 \<le> r \<and> r \<le> 0x200A) \<or> r = 0x2028 \<or> r = 0x2029 \<or> r = 0x202F
      \<or> r = 0x205F \<or> r = 0x3000)"

subsection \<open>\<open>fmt.Sscanf\<close> with the format \<open>"%d %s"\<close>\<close>

text \<open>
  \<open>buildRData\<close> calls \<open>fmt.Sscanf\<close> of the Go standard library; the functions below
  follow fmt/scan.go, for the format \<open>"%d %s"\<close>, operands of type \<open>*int\<close> (64 bits) and
  \<open>*string\<close>, and an input read by \<open>Sscanf\<close> (a newline is neither space nor end of
  input) of fewer than \<open>2^30\<close> runes. The scanner state is the input that is left, as runes;
  \<open>None\<close> is the panic by which the scanner reports an error and which \<open>Sscanf\<close> turns
  into its error result.
\<close>

fun SkipSpace :: "int list \<Rightarrow> int list option" where
  "SkipSpace [] = Some []"
| "SkipSpace (r # rs) =
     (if r = 13 \<and> (case rs of [] \<Rightarrow> False | r' # _ \<Rightarrow> r' = 10) then SkipSpace rs
      else if r = 10 then None
      else if \<not> isSpace r then Some (r # rs)
      else SkipSpace rs)"

definition isSign :: "int \<Rightarrow> bool" where
  "isSign r = (r = 43 \<or> r = 45)"

text \<open>The digits that \<open>getBase\<close> gives the verb \<open>%d\<close>: \<open>"0123456789"\<close>.\<close>

definition isDigitRune :: "int \<Rightarrow> bool" where
  "isDigitRune r = (48 \<le> r \<and> r \<le> 57)"

definition runes_string :: "int list \<Rightarrow> string" where
  "runes_string rs = concat (map AppendRune rs)"

text \<open>
  \<open>scanInt\<close> for the verb \<open>%d\<close> and a 64-bit \<open>int\<close>: skip spaces, fail at the end of
  the input, accept one sign, accept one or more digits, and parse the token.
\<close>

definition scanInt :: "int list \<Rightarrow> (int \<times> int list) option" where
  "scanInt rs =
     (case SkipSpace rs of
        None \<Rightarrow> None
      | Some rs1 \<Rightarrow>
          if rs1 = [] then None
          else let sgn = (if isSign (hd rs1) then [hd rs1] else []);
                   rs2 = (if isSign (hd rs1) then tl rs1 else rs1)
               in if rs2 = [] then None
                  else if \<not> isDigitRune (hd rs2) then None
                  else case ParseInt (runes_string (sgn @ takeWhile isDigitRune rs2)) of
                         None \<Rightarrow> None
                       | Some i \<Rightarrow> Some (i, dropWhile isDigitRune rs2))"

text \<open>
  \<open>advance\<close> on the space of the format, which stands alone: the next rune is a space
  other than a newline, or the input is at its end; the spaces that follow are consumed
  up to a newline.
\<close>

definition advance_space :: "int list \<Rightarrow> int list option" where
  "advance_space rs =
     (case rs of
        [] \<Rightarrow> Some []
      | r # _ \<Rightarrow>
          if \<not> isSpace r then None
          else if r = 10 then None
          else Some (dropWhile (\<lambda>r. isSpace r \<and> r \<noteq> 10) rs))"

text \<open>
  \<open>convertString\<close> for the verb \<open>%s\<close>: skip spaces, fail at the end of the input, and
  take the runes up to the next space (\<open>token\<close> skips spaces once more).
\<close>

definition convertString :: "int list \<Rightarrow> (string \<times> int list) option" where
  "convertString rs =
     (case SkipSpace rs of
        None \<Rightarrow> None
      | Some rs1 \<Rightarrow>
          if rs1 = [] then None
          else case SkipSpace rs1 of
                 None \<Rightarrow> None
               | Some rs2 \<Rightarrow>
                   Some (runes_string (takeWhile (\<lambda>r. \<not> isSpace r) rs2),
                         dropWhile (\<lambda>r. \<not> isSpace r) rs2))"

text \<open>
  \<open>fmt.Sscanf(str, "%d %s", &p, &e)\<close>. \<open>doScanf\<close> skips spaces before each verb and
  stops at the first error, leaving the operands not yet scanned as they were. The result
  is what was stored through each pointer, \<open>None\<close> for an operand not stored; the
  count and the error that \<open>Sscanf\<close> returns are determined by it.
\<close>

definition Sscanf_d_s :: "string \<Rightarrow> int option \<times> string option" where
  "Sscanf_d_s str =
     (case Option.bind (SkipSpace (decodeRunes str)) scanInt of
        None \<Rightarrow> (None, None)
      | Some (p, rs1) \<Rightarrow>
          (case Option.bind (Option.bind (advance_space rs1) SkipSpace) convertString of
             None \<Rightarrow> (Some p, None)
           | Some (e, rs2) \<Rightarrow> (Some p, Some e)))"

section \<open>Data model\<close>

text \<open>
  Modelled from the spec: the struct declarations \<open>Record\<close>, \<open>DataBlock\<close>,
  \<open>RecordRequest\<close>, \<open>PublishZoneBlock\<close>, \<open>AllRecordsResponse\<close> and \<open>RecordResponse\<close>
  are in files of the package that are not part of the sources at hand. Their fields are
  the ones convenient_client.go reads and writes, with the types it uses them at: strings,
  but for the TTL of a response, which \<open>strconv.Itoa\<close> takes, and \<open>Preference\<close>, which
  \<open>%d\<close> scans and prints; both are taken to be of type \<open>int\<close>, 64 bits wide.
\<close>

record Record =
  ID :: string
  Name :: string
  Value :: string
  Type :: string
  FQDN :: string
  Zone :: string
  TTL :: string

record DataBlock =
  Address :: string
  Alias :: string
  CName :: string
  Exchange :: string
  Preference :: int
  NSDName :: string
  RName :: string
  TxtData :: string

text \<open>The zero value \<open>DataBlock{}\<close>.\<close>

definition DataBlock_zero :: DataBlock where
  "DataBlock_zero =
     \<lparr>Address = [], Alias = [], CName = [], Exchange = [], Preference = 0, NSDName = [],
      RName = [], TxtData = []\<rparr>"

text \<open>The field \<open>Data\<close> of a \<open>RecordResponse\<close>; \<open>rec.Data.Zone\<close> is \<open>Data_Zone\<close>.\<close>

record RecordData =
  Data_Zone :: string
  Data_FQDN :: string
  Data_RecordType :: string
  Data_TTL :: int
  Data_RData :: DataBlock

text \<open>The request bodies: a \<open>PublishZoneBlock\<close> and a \<open>RecordRequest\<close>.\<close>

datatype body = PublishZoneBlock bool | RecordRequest DataBlock string

text \<open>A Go \<open>error\<close> is its message; the result \<open>nil\<close> is \<open>None\<close>.\<close>

datatype error = Error string

fun message :: "error \<Rightarrow> string" where
  "message (Error m) = m"

section \<open>The HTTP client\<close>

text \<open>
  Modelled from the spec: the embedded \<open>Client\<close> and its method
  \<open>Do(method, path, requestBody, responseBody) -> error\<close> are in a file that is not part
  of the sources at hand; the spec treats them as a black box. The client is a parameter:
  a state \<open>'w\<close> of the session and the remote service, and one function for each type of
  \<open>responseBody\<close> that convenient_client.go passes (\<open>nil\<close>, a pointer to an
  \<open>AllRecordsResponse\<close>, whose field \<open>Data\<close> is a list of URLs, and a pointer to a
  \<open>RecordResponse\<close>). Each function returns the error or the decoded response, and the
  next state.
\<close>

record 'w Client =
  Do_nil :: "string \<Rightarrow> string \<Rightarrow> body option \<Rightarrow> 'w \<Rightarrow> error option \<times> 'w"
  Do_AllRecordsResponse :: "string \<Rightarrow> string \<Rightarrow> body option \<Rightarrow> 'w \<Rightarrow> (error + string list) \<times> 'w"
  Do_RecordResponse :: "string \<Rightarrow> string \<Rightarrow> body option \<Rightarrow> 'w \<Rightarrow> (error + RecordData) \<times> 'w"

text \<open>
  What a call of the facade does to the outside: each call of \<open>Do\<close> and each
  \<open>time.Sleep\<close>, with its duration in milliseconds, in the order they happen. (The lines
  written with \<open>log.Printf\<close> and \<open>fmt.Println\<close> are not modelled.)
\<close>

datatype event = Do string string "body option" | Sleep int

record 'w session =
  world :: 'w
  trace :: "event list"

definition call_nil ::
  "'w Client \<Rightarrow> string \<Rightarrow> string \<Rightarrow> body option \<Rightarrow> 'w session \<Rightarrow> error option \<times> 'w session"
where
  "call_nil c m path b s =
     (case Do_nil c m path b (world s) of
        (err, w) \<Rightarrow> (err, \<lparr>world = w, trace = trace s @ [Do m path b]\<rparr>))"

definition call_AllRecordsResponse ::
  "'w Client \<Rightarrow> string \<Rightarrow> string \<Rightarrow> body option \<Rightarrow> 'w session \<Rightarrow> (error + string list) \<times> 'w session"
where
  "call_AllRecordsResponse c m path b s =
     (case Do_AllRecordsResponse c m path b (world s) of
        (res, w) \<Rightarrow> (res, \<lparr>world = w, trace = trace s @ [Do m path b]\<rparr>))"

definition call_RecordResponse ::
  "'w Client \<Rightarrow> string \<Rightarrow> string \<Rightarrow> body option \<Rightarrow> 'w session \<Rightarrow> (error + RecordData) \<times> 'w session"
where
  "call_RecordResponse c m path b s =
     (case Do_RecordResponse c m path b (world s) of
        (res, w) \<Rightarrow> (res, \<lparr>world = w, trace = trace s @ [Do m path b]\<rparr>))"

definition sleep :: "int \<Rightarrow> 'w session \<Rightarrow> 'w session" where
  "sleep ms s = s\<lparr>trace := trace s @ [Sleep ms]\<rparr>"

section \<open>The record facade\<close>

text \<open>
  A method that takes \<open>record *Record\<close> and assigns to its fields returns the record as
  it leaves it, next to the error and the session.
\<close>

definition buildRData :: "Record \<Rightarrow> DataBlock \<times> error option" where
  "buildRData r =
     (let t = Type r in
      if t = ''A'' \<or> t = ''AAAA'' then (DataBlock_zero\<lparr>Address := Value r\<rparr>, None)
      else if t = ''ALIAS'' then (DataBlock_zero\<lparr>Alias := Value r\<rparr>, None)
      else if t = ''CNAME'' then (DataBlock_zero\<lparr>CName := Value r\<rparr>, None)
      else if t = ''MX'' then
        (case Sscanf_d_s (Value r) of
           (p, e) \<Rightarrow>
             (DataBlock_zero\<lparr>Preference := (case p of None \<Rightarrow> 0 | Some i \<Rightarrow> i),
                             Exchange := (case e of None \<Rightarrow> [] | Some x \<Rightarrow> x)\<rparr>, None))
      else if t = ''NS'' then (DataBlock_zero\<lparr>NSDName := Value r\<rparr>, None)
      else if t = ''SOA'' then (DataBlock_zero\<lparr>RName := Value r\<rparr>, None)
      else if t = ''TXT'' \<or> t = ''SPF'' then (DataBlock_zero\<lparr>TxtData := Value r\<rparr>, None)
      else (DataBlock_zero, Some (Error (''Invalid Dyn record type: '' @ t))))"

definition PublishZone :: "'w Client \<Rightarrow> string \<Rightarrow> 'w session \<Rightarrow> error option \<times> 'w session" where
  "PublishZone c zone s = call_nil c ''PUT'' (''Zone/'' @ zone) (Some (PublishZoneBlock True)) s"

definition CreateRecord ::
  "'w Client \<Rightarrow> Record \<Rightarrow> 'w session \<Rightarrow> error option \<times> Record \<times> 'w session"
where
  "CreateRecord c record0 s =
     (let record =
            (if FQDN record0 = [] \<and> Name record0 = [] then record0\<lparr>FQDN := Zone record0\<rparr>
             else if FQDN record0 = [] then
               record0\<lparr>FQDN := Name record0 @ ''.'' @ Zone record0\<rparr>
             else record0)
      in case buildRData record of
           (rdata, Some err) \<Rightarrow>
             (Some (Error (''Failed to create Dyn RData: '' @ message err)), record, s)
         | (rdata, None) \<Rightarrow>
             (let url = Type record @ ''Record/'' @ Zone record @ ''/'' @ FQDN record;
                  data = RecordRequest rdata (TTL record)
              in case call_nil c ''POST'' url (Some data) s of
                   (err, s') \<Rightarrow> (err, record, s')))"

definition UpdateRecord ::
  "'w Client \<Rightarrow> Record \<Rightarrow> 'w session \<Rightarrow> error option \<times> Record \<times> 'w session"
where
  "UpdateRecord c record0 s =
     (let record =
            (if FQDN record0 = [] then record0\<lparr>FQDN := Name record0 @ ''.'' @ Zone record0\<rparr>
             else record0)
      in case buildRData record of
           (rdata, Some err) \<Rightarrow>
             (Some (Error (''Failed to create Dyn RData: '' @ message err)), record, s)
         | (rdata, None) \<Rightarrow>
             (let url = Type record @ ''Record/'' @ Zone record @ ''/'' @ FQDN record @ ''/''
                          @ ID record;
                  data = RecordRequest rdata (TTL record)
              in case call_nil c ''PUT'' url (Some data) s of
                   (err, s') \<Rightarrow> (err, record, s')))"

definition DeleteRecord ::
  "'w Client \<Rightarrow> Record \<Rightarrow> 'w session \<Rightarrow> error option \<times> Record \<times> 'w session"
where
  "DeleteRecord c record0 s =
     (let record =
            (if FQDN record0 = [] then record0\<lparr>FQDN := Name record0 @ ''.'' @ Zone record0\<rparr>
             else record0)
      in if ID record = [] then (Some (Error ''No ID found! We can't continue!''), record, s)
         else
           (let url = Type record @ ''Record/'' @ Zone record @ ''/'' @ FQDN record @ ''/''
                        @ ID record
            in case call_nil c ''DELETE'' url None s of
                 (err, s') \<Rightarrow> (err, record, s')))"

text \<open>The \<open>switch\<close> of \<open>GetRecord\<close> on the record type of the response; \<open>None\<close> is its
  \<open>default\<close> branch.\<close>

definition GetRecord_value :: "string \<Rightarrow> DataBlock \<Rightarrow> string option" where
  "GetRecord_value t rdata =
     (if t = ''A'' \<or> t = ''AAAA'' then Some (Address rdata)
      else if t = ''ALIAS'' then Some (Alias rdata)
      else if t = ''CNAME'' then Some (CName rdata)
      else if t = ''MX'' then Some (Itoa (Preference rdata) @ '' '' @ Exchange rdata)
      else if t = ''NS'' then Some (NSDName rdata)
      else if t = ''SOA'' then Some (RName rdata)
      else if t = ''TXT'' \<or> t = ''SPF'' then Some (TxtData rdata)
      else None)"

definition GetRecord ::
  "'w Client \<Rightarrow> Record \<Rightarrow> 'w session \<Rightarrow> error option \<times> Record \<times> 'w session"
where
  "GetRecord c record0 s =
     (let url = Type record0 @ ''Record/'' @ Zone record0 @ ''/'' @ FQDN record0 @ ''/''
                  @ ID record0
      in case call_RecordResponse c ''GET'' url None s of
           (Inl err, s') \<Rightarrow> (Some err, record0, s')
         | (Inr rec, s') \<Rightarrow>
             (let record = record0\<lparr>Zone := Data_Zone rec, FQDN := Data_FQDN rec,
                                    Name := TrimSuffix (Data_FQDN rec) (''.'' @ Data_Zone rec),
                                    Type := Data_RecordType rec, TTL := Itoa (Data_TTL rec)\<rparr>
              in case GetRecord_value (Data_RecordType rec) (Data_RData rec) of
                   Some v \<Rightarrow> (None, record\<lparr>Value := v\<rparr>, s')
                 | None \<Rightarrow>
                     (Some (Error (''Invalid Dyn record type: '' @ Data_RecordType rec)),
                      record, s')))"

subsection \<open>\<open>GetRecordID\<close>\<close>

definition DO_RETRY_BACKOFF_FACTOR_MILLIS :: "64 word" where
  "DO_RETRY_BACKOFF_FACTOR_MILLIS = 250"

definition DO_MAX_SLEEP_MILLIS :: int where
  "DO_MAX_SLEEP_MILLIS = 2000"

definition DO_MAX_CUMULATIVE_WAIT_MILLIS :: int where
  "DO_MAX_CUMULATIVE_WAIT_MILLIS = 30000"

text \<open>
  The prefix that \<open>fmt.Sprintf("/REST/%sRecord/%s/%s/", ...)\<close> builds, and the inner loop
  over \<open>records.Data\<close>: it starts from the \<open>finalID\<close> it is given and returns the
  \<open>finalID\<close> it leaves.
\<close>

definition GetRecordID_prefix :: "Record \<Rightarrow> string" where
  "GetRecordID_prefix record =
     ''/REST/'' @ Type record @ ''Record/'' @ Zone record @ ''/'' @ FQDN record @ ''/''"

definition GetRecordID_scan :: "Record \<Rightarrow> string \<Rightarrow> string list \<Rightarrow> string" where
  "GetRecordID_scan record finalID urls =
     foldl (\<lambda>finalID recordURL.
              let id = TrimPrefix recordURL (GetRecordID_prefix record)
              in if \<not> Contains id ''/'' \<and> id \<noteq> [] then id else finalID)
           finalID urls"

text \<open>
  \<open>loopCount\<close> is a Go \<open>int\<close>, taken as 64 bits wide, and the product
  \<open>loopCount*DO_RETRY_BACKOFF_FACTOR_MILLIS\<close> wraps around. \<open>sleepTime\<close> and
  \<open>cumulativeWaitMillis\<close> are of type \<open>float64\<close>: they hold integers only, which
  \<open>float64\<close> represents and adds exactly below \<open>2^53\<close>, and they are modelled as \<open>int\<close>.
  (The conversion to \<open>float64\<close> rounds a product beyond \<open>2^53\<close>; the minimum is such a
  product only when it is negative, that is after a wrap-around, which no run reaches.)
\<close>

definition sleepTime :: "64 word \<Rightarrow> int" where
  "sleepTime loopCount = min (sint (loopCount * DO_RETRY_BACKOFF_FACTOR_MILLIS)) DO_MAX_SLEEP_MILLIS"

text \<open>
  The outer loop, from the state at the top of its body to the state at its \<open>break\<close> or
  at the \<open>return\<close> inside it. The result is \<open>None\<close> when the loop does not end.
\<close>

partial_function (option) GetRecordID_loop ::
  "'w Client \<Rightarrow> Record \<Rightarrow> string \<Rightarrow> 64 word \<Rightarrow> int \<Rightarrow> 'w session
     \<Rightarrow> ((error + string) \<times> 'w session) option"
where
  "GetRecordID_loop c record finalID loopCount cumulativeWaitMillis s =
     (case call_AllRecordsResponse c ''GET''
             (''AllRecord/'' @ Zone record @ ''/'' @ FQDN record) None s of
        (Inl err, s1) \<Rightarrow>
          Some (Inl (Error (''Failed to find Dyn record id: '' @ message err)), s1)
      | (Inr records, s1) \<Rightarrow>
          (let finalID1 = GetRecordID_scan record finalID records
           in if finalID1 \<noteq> [] \<or> DO_MAX_CUMULATIVE_WAIT_MILLIS \<le> cumulativeWaitMillis
              then Some (Inr finalID1, s1)
              else GetRecordID_loop c record finalID1 (loopCount + 1)
                     (cumulativeWaitMillis + sleepTime loopCount)
                     (sleep (sleepTime loopCount) s1)))"

definition GetRecordID ::
  "'w Client \<Rightarrow> Record \<Rightarrow> 'w session \<Rightarrow> (error option \<times> Record \<times> 'w session) option"
where
  "GetRecordID c record s =
     (case GetRecordID_loop c record [] 1 0 s of
        None \<Rightarrow> None
      | Some (Inl err, s') \<Rightarrow> Some (Some err, record, s')
      | Some (Inr finalID, s') \<Rightarrow>
          if finalID = [] then Some (Some (Error ''Failed to find Dyn record id!''), record, s')
          else Some (None, record\<lparr>ID := finalID\<rparr>, s'))"

section \<open>Notions used in the statements\<close>

text \<open>The record types that the spec lists as supported.\<close>

definition supported_types :: "string set" where
  "supported_types =
     {''A'', ''AAAA'', ''ALIAS'', ''CNAME'', ''MX'', ''NS'', ''SOA'', ''TXT'', ''SPF''}"

text \<open>
  An identifier that the inner loop of \<open>GetRecordID\<close> should accept, in the words of the
  spec: it is not empty and holds no path separator. The candidates of a listing are the
  accepted remainders of its URLs, in the order of the listing.
\<close>

definition accepted_ID :: "string \<Rightarrow> bool" where
  "accepted_ID ident = (ident \<noteq> [] \<and> CHR ''/'' \<notin> set ident)"

definition candidates :: "Record \<Rightarrow> string list \<Rightarrow> string list" where
  "candidates record urls =
     filter accepted_ID (map (\<lambda>recordURL. TrimPrefix recordURL (GetRecordID_prefix record)) urls)"

text \<open>The durations of the sleeps in a trace, in milliseconds.\<close>

definition sleeps :: "event list \<Rightarrow> int list" where
  "sleeps evs = concat (map (\<lambda>e. case e of Sleep ms \<Rightarrow> [ms] | Do m path b \<Rightarrow> []) evs)"

text \<open>
  The trace of a polling run that starts at attempt \<open>n\<close> and sleeps \<open>m\<close> times: \<open>m + 1\<close>
  listing requests, with a sleep of \<open>min(k * 250, 2000)\<close> milliseconds after attempt \<open>k\<close>.
\<close>

fun retry_events :: "string \<Rightarrow> nat \<Rightarrow> nat \<Rightarrow> event list" where
  "retry_events url n 0 = [Do ''GET'' url None]"
| "retry_events url n (Suc m) =
     Do ''GET'' url None # Sleep (min (int n * 250) 2000) # retry_events url (Suc n) m"

text \<open>
  The cumulative wait at the start of attempt \<open>n\<close>, in closed form:
  \<open>250 + 500 + ... + 250 * (n - 1)\<close> up to attempt 8, and 2000 more for each later attempt.
\<close>

definition waited :: "nat \<Rightarrow> int" where
  "waited n = (if n \<le> 8 then 125 * int n * (int n - 1) else 2000 * int n - 9000)"

text \<open>
  A client whose listings never fail and never hold an identifier that \<open>GetRecordID\<close>
  accepts for the record.
\<close>

definition never_found :: "'w Client \<Rightarrow> Record \<Rightarrow> bool" where
  "never_found c record =
     (\<forall>m path b w. case Do_AllRecordsResponse c m path b w of
        (Inl err, w') \<Rightarrow> False
      | (Inr urls, w') \<Rightarrow> GetRecordID_scan record [] urls = [])"

text \<open>
  The state of the client after \<open>j\<close> listing requests for a URL, from the state \<open>w\<close>, and
  what the client answers to the next one, which is listing number \<open>j\<close>, counted from 0.
\<close>

fun after_listings :: "'w Client \<Rightarrow> string \<Rightarrow> 'w \<Rightarrow> nat \<Rightarrow> 'w" where
  "after_listings c url w 0 = w"
| "after_listings c url w (Suc j) =
     snd (Do_AllRecordsResponse c ''GET'' url None (after_listings c url w j))"

definition listing :: "'w Client \<Rightarrow> string \<Rightarrow> 'w \<Rightarrow> nat \<Rightarrow> error + string list" where
  "listing c url w j = fst (Do_AllRecordsResponse c ''GET'' url None (after_listings c url w j))"

text \<open>A byte below 128 is a rune of its own.\<close>

definition ascii :: "char \<Rightarrow> bool" where
  "ascii c = ((of_char c :: int) < 128)"

text \<open>
  An exchange that \<open>%s\<close> reads back as it is: a string that is not empty, is well-formed
  UTF-8 (decoding it to runes and encoding the runes gives the string again) and holds no
  space.
\<close>

definition exchange_token :: "string \<Rightarrow> bool" where
  "exchange_token e =
     (e \<noteq> [] \<and> runes_string (decodeRunes e) = e
      \<and> list_all (\<lambda>r. \<not> isSpace r) (decodeRunes e))"

text \<open>
  A value starts with an integer when, after its leading spaces, there is a decimal digit,
  or a sign and then a decimal digit.
\<close>

definition leading_integer :: "string \<Rightarrow> bool" where
  "leading_integer str =
     (case dropWhile isSpace (decodeRunes str) of
        [] \<Rightarrow> False
      | r # rs \<Rightarrow>
          if isSign r then (case rs of [] \<Rightarrow> False | d # _ \<Rightarrow> 48 \<le> d \<and> d \<le> 57)
          else 48 \<le> r \<and> r \<le> 57)"

text \<open>
  A value has no second token when, after its leading spaces and the run of runes that
  are not spaces, only spaces are left.
\<close>

definition no_second_token :: "string \<Rightarrow> bool" where
  "no_second_token str =
     list_all isSpace (dropWhile (\<lambda>r. \<not> isSpace r) (dropWhile isSpace (decodeRunes str)))"

subsection \<open>Clients and records for the examples\<close>

text \<open>A client whose state counts the calls and whose listings are empty.\<close>

definition example_client :: "nat Client" where
  "example_client =
     \<lparr>Do_nil = (\<lambda>m path b w. (None, Suc w)),
      Do_AllRecordsResponse = (\<lambda>m path b w. (Inr [], Suc w)),
      Do_RecordResponse = (\<lambda>m path b w. (Inl (Error ''not found''), Suc w))\<rparr>"

text \<open>
  A client for the examples: its state is the record that the service holds, which every
  \<open>GET\<close> of a record returns.
\<close>

definition stored_client :: "RecordData Client" where
  "stored_client =
     \<lparr>Do_nil = (\<lambda>m path b w. (None, w)),
      Do_AllRecordsResponse = (\<lambda>m path b w. (Inr [], w)),
      Do_RecordResponse = (\<lambda>m path b w. (Inr w, w))\<rparr>"

definition ptr_data :: RecordData where
  "ptr_data =
     \<lparr>Data_Zone = ''example.com'', Data_FQDN = ''www.example.com'', Data_RecordType = ''PTR'',
      Data_TTL = 300, Data_RData = DataBlock_zero\<rparr>"

definition ptr_record :: Record where
  "ptr_record =
     \<lparr>ID = ''7'', Name = ''old'', Value = ''192.0.2.1'', Type = ''PTR'', FQDN = ''old.example.org'',
      Zone = ''example.org'', TTL = ''60''\<rparr>"

text \<open>
  A client whose state is the listing that the service returns for every FQDN, a record
  whose identifier is still to be found, and a listing that holds its URL and the URL of a
  nested resource.
\<close>

definition listing_client :: "string list Client" where
  "listing_client =
     \<lparr>Do_nil = (\<lambda>m path b w. (None, w)),
      Do_AllRecordsResponse = (\<lambda>m path b w. (Inr w, w)),
      Do_RecordResponse = (\<lambda>m path b w. (Inl (Error ''not found''), w))\<rparr>"

definition www_record :: Record where
  "www_record =
     \<lparr>ID = [], Name = ''www'', Value = ''192.0.2.1'', Type = ''A'', FQDN = ''www.example.com'',
      Zone = ''example.com'', TTL = ''60''\<rparr>"

definition www_listing :: "string list" where
  "www_listing =
     [''/REST/ARecord/example.com/www.example.com/123'',
      ''/REST/ARecord/example.com/www.example.com/123/notes'']"

text \<open>
  A client whose state counts the calls, and whose listings are empty until the third one,
  as when the service takes a while to show a record.
\<close>

definition eventual_client :: "nat Client" where
  "eventual_client =
     \<lparr>Do_nil = (\<lambda>m path b w. (None, Suc w)),
      Do_AllRecordsResponse = (\<lambda>m path b w. (Inr (if w < 2 then [] else www_listing), Suc w)),
      Do_RecordResponse = (\<lambda>m path b w. (Inl (Error ''not found''), Suc w))\<rparr>"

text \<open>The session before the first call.\<close>

definition start :: "nat session" where
  "start = \<lparr>world = 0, trace = []\<rparr>"

text \<open>An MX record of the zone apex with a given value, and a response of the service.\<close>

definition mx_record :: "string \<Rightarrow> Record" where
  "mx_record v =
     \<lparr>ID = ''7'', Name = [], Value = v, Type = ''MX'', FQDN = ''example.com'',
      Zone = ''example.com'', TTL = ''3600''\<rparr>"


section \<open>The record types\<close>

lemma buildRData_error_iff: "snd (buildRData r) \<noteq> None \<longleftrightarrow> Type r \<notin> supported_types"
  by (simp add: buildRData_def supported_types_def Let_def split: prod.splits)

lemma GetRecord_value_None_iff: "GetRecord_value t rdata = None \<longleftrightarrow> t \<notin> supported_types"
  by (simp add: GetRecord_value_def supported_types_def)

section \<open>Deriving the FQDN\<close>

lemma CreateRecord_FQDN:
  "FQDN (fst (snd (CreateRecord c r s))) =
     (if FQDN r \<noteq> [] then FQDN r else if Name r = [] then Zone r else Name r @ ''.'' @ Zone r)"
  by (simp add: CreateRecord_def Let_def split: prod.splits option.splits)

lemma UpdateRecord_FQDN:
  "FQDN (fst (snd (UpdateRecord c r s))) =
     (if FQDN r \<noteq> [] then FQDN r else Name r @ ''.'' @ Zone r)"
  by (simp add: UpdateRecord_def Let_def split: prod.splits option.splits)

lemma DeleteRecord_FQDN:
  "FQDN (fst (snd (DeleteRecord c r s))) =
     (if FQDN r \<noteq> [] then FQDN r else Name r @ ''.'' @ Zone r)"
  by (simp add: DeleteRecord_def Let_def split: prod.splits option.splits)

text \<open>
  Claim C1. \<open>UpdateRecord\<close> and \<open>DeleteRecord\<close> are said to derive the FQDN as
  \<open>CreateRecord\<close> does, an empty name giving the zone itself. On the apex record of the
  zone \<open>example.com\<close> (empty FQDN, empty name) \<open>CreateRecord\<close> sets the FQDN to
  \<open>example.com\<close>, while \<open>UpdateRecord\<close> and \<open>DeleteRecord\<close> set it to \<open>.example.com\<close>,
  whatever the client does.
\<close>

theorem UpdateRecord_DeleteRecord_apex_FQDN:
  "FQDN (fst (snd (CreateRecord c
      \<lparr>ID = ''7'', Name = [], Value = ''192.0.2.1'', Type = ''A'', FQDN = [],
       Zone = ''example.com'', TTL = ''60''\<rparr> s))) = ''example.com''
   \<and> FQDN (fst (snd (UpdateRecord c
      \<lparr>ID = ''7'', Name = [], Value = ''192.0.2.1'', Type = ''A'', FQDN = [],
       Zone = ''example.com'', TTL = ''60''\<rparr> s))) = ''.example.com''
   \<and> FQDN (fst (snd (DeleteRecord c
      \<lparr>ID = ''7'', Name = [], Value = ''192.0.2.1'', Type = ''A'', FQDN = [],
       Zone = ''example.com'', TTL = ''60''\<rparr> s))) = ''.example.com''"
  by (simp add: CreateRecord_FQDN UpdateRecord_FQDN DeleteRecord_FQDN)

section \<open>Deleting without an ID\<close>

text \<open>
  Claim C2. For a record whose ID is empty, \<open>DeleteRecord\<close> returns an error and does
  not call \<open>Do\<close>: the session it returns is the one it was given, with the same trace,
  and the result does not depend on the client. (The FQDN has been derived by then.)
\<close>

theorem DeleteRecord_empty_ID:
  assumes "ID record = []"
  shows "DeleteRecord c record s =
           (Some (Error ''No ID found! We can't continue!''),
            (if FQDN record = [] then record\<lparr>FQDN := Name record @ ''.'' @ Zone record\<rparr>
             else record),
            s)"
  using assms by (simp add: DeleteRecord_def Let_def)

theorem DeleteRecord_empty_ID_witness:
  "ID \<lparr>ID = [], Name = ''www'', Value = ''192.0.2.1'', Type = ''A'', FQDN = [],
       Zone = ''example.com'', TTL = ''60''\<rparr> = []
   \<and> DeleteRecord example_client
         \<lparr>ID = [], Name = ''www'', Value = ''192.0.2.1'', Type = ''A'', FQDN = [],
          Zone = ''example.com'', TTL = ''60''\<rparr> \<lparr>world = 0, trace = []\<rparr>
       = (Some (Error ''No ID found! We can't continue!''),
          \<lparr>ID = [], Name = ''www'', Value = ''192.0.2.1'', Type = ''A'',
           FQDN = ''www.example.com'', Zone = ''example.com'', TTL = ''60''\<rparr>,
          \<lparr>world = 0, trace = []\<rparr>)"
  using DeleteRecord_empty_ID [of "\<lparr>ID = [], Name = ''www'', Value = ''192.0.2.1'', Type = ''A'',
      FQDN = [], Zone = ''example.com'', TTL = ''60''\<rparr>" example_client "\<lparr>world = 0, trace = []\<rparr>"]
  by simp

section \<open>Unrecognized record types\<close>

text \<open>
  Claim C8. \<open>buildRData\<close> returns an error for every record type outside the supported
  set, and \<open>GetRecord\<close> returns an error whenever the record type of the response is
  outside that set.
\<close>

theorem unsupported_type_error:
  "(Type r \<notin> supported_types \<longrightarrow>
      snd (buildRData r) = Some (Error (''Invalid Dyn record type: '' @ Type r)))
   \<and> (Do_RecordResponse c ''GET''
         (Type record @ ''Record/'' @ Zone record @ ''/'' @ FQDN record @ ''/'' @ ID record)
         None (world s) = (Inr rec, w)
       \<and> Data_RecordType rec \<notin> supported_types \<longrightarrow>
      fst (GetRecord c record s)
        = Some (Error (''Invalid Dyn record type: '' @ Data_RecordType rec)))"
  by (simp add: buildRData_def GetRecord_def GetRecord_value_def call_RecordResponse_def
      supported_types_def Let_def)

theorem unsupported_type_error_witness:
  "Type ptr_record \<notin> supported_types
   \<and> snd (buildRData ptr_record) = Some (Error ''Invalid Dyn record type: PTR'')
   \<and> Do_RecordResponse stored_client ''GET'' ''PTRRecord/example.org/old.example.org/7'' None
         ptr_data = (Inr ptr_data, ptr_data)
   \<and> Data_RecordType ptr_data \<notin> supported_types
   \<and> fst (GetRecord stored_client ptr_record \<lparr>world = ptr_data, trace = []\<rparr>)
         = Some (Error ''Invalid Dyn record type: PTR'')"
  using unsupported_type_error [of ptr_record stored_client ptr_record
      "\<lparr>world = ptr_data, trace = []\<rparr>" ptr_data ptr_data]
  by (simp add: ptr_record_def ptr_data_def stored_client_def supported_types_def)

section \<open>\<open>GetRecord\<close> on an unrecognized record type\<close>

text \<open>
  Claim C10. When the call of \<open>Do\<close> succeeds and the record type of the response is not
  a supported one, \<open>GetRecord\<close> returns an error and leaves the record with \<open>Zone\<close>,
  \<open>FQDN\<close>, \<open>Name\<close>, \<open>Type\<close> and \<open>TTL\<close> taken from the response; of the fields that
  \<open>GetRecord\<close> assigns, \<open>Value\<close> alone keeps what it held. (\<open>ID\<close>, which no path of
  \<open>GetRecord\<close> assigns, keeps it too.)
\<close>

theorem GetRecord_invalid_type_not_atomic:
  assumes "Do_RecordResponse c ''GET''
             (Type record @ ''Record/'' @ Zone record @ ''/'' @ FQDN record @ ''/'' @ ID record)
             None (world s) = (Inr rec, w)"
    and "Data_RecordType rec \<notin> supported_types"
  shows "\<exists>err record' s'.
           GetRecord c record s = (Some err, record', s')
           \<and> Zone record' = Data_Zone rec
           \<and> FQDN record' = Data_FQDN rec
           \<and> Name record' = TrimSuffix (Data_FQDN rec) (''.'' @ Data_Zone rec)
           \<and> Type record' = Data_RecordType rec
           \<and> TTL record' = Itoa (Data_TTL rec)
           \<and> Value record' = Value record
           \<and> ID record' = ID record"
  using assms
  by (simp add: GetRecord_def GetRecord_value_def call_RecordResponse_def
      supported_types_def Let_def)

theorem GetRecord_invalid_type_not_atomic_witness:
  "Do_RecordResponse stored_client ''GET'' ''PTRRecord/example.org/old.example.org/7'' None
      ptr_data = (Inr ptr_data, ptr_data)
   \<and> Data_RecordType ptr_data \<notin> supported_types
   \<and> (\<exists>err record' s'.
         GetRecord stored_client ptr_record \<lparr>world = ptr_data, trace = []\<rparr>
           = (Some err, record', s')
         \<and> Zone record' = ''example.com''
         \<and> FQDN record' = ''www.example.com''
         \<and> Name record' = ''www''
         \<and> Type record' = ''PTR''
         \<and> TTL record' = ''300''
         \<and> Value record' = ''192.0.2.1''
         \<and> ID record' = ''7'')"
proof -
  have call: "Do_RecordResponse stored_client ''GET''
      (Type ptr_record @ ''Record/'' @ Zone ptr_record @ ''/'' @ FQDN ptr_record @ ''/''
         @ ID ptr_record) None (world \<lparr>world = ptr_data, trace = []\<rparr>) = (Inr ptr_data, ptr_data)"
    by (simp add: stored_client_def)
  have unsupported: "Data_RecordType ptr_data \<notin> supported_types"
    by (simp add: ptr_data_def supported_types_def)
  have name: "TrimSuffix ''www.example.com'' ''.example.com'' = ''www''"
    by (simp add: TrimSuffix_def HasSuffix_def)
  have ttl: "Itoa 300 = ''300''"
    by code_simp
  show ?thesis
    using GetRecord_invalid_type_not_atomic [OF call unsupported] unsupported name ttl
    by (simp add: ptr_record_def ptr_data_def stored_client_def)
qed

section \<open>The inner loop of \<open>GetRecordID\<close>\<close>

lemma Contains_slash: "Contains s ''/'' \<longleftrightarrow> CHR ''/'' \<in> set s"
  by (induction s) (auto simp: HasPrefix_def)

lemma TrimPrefix_append: "TrimPrefix (pre @ s) pre = s"
  by (simp add: TrimPrefix_def HasPrefix_def)

lemma GetRecordID_scan_last:
  "GetRecordID_scan record finalID urls =
     (if candidates record urls = [] then finalID else last (candidates record urls))"
proof (induction urls rule: rev_induct)
  case Nil
  show ?case
    by (simp add: GetRecordID_scan_def candidates_def)
next
  case (snoc u urls)
  have "GetRecordID_scan record finalID (urls @ [u]) =
          (let id = TrimPrefix u (GetRecordID_prefix record)
           in if accepted_ID id then id else GetRecordID_scan record finalID urls)"
    by (auto simp: GetRecordID_scan_def accepted_ID_def Contains_slash Let_def)
  with snoc show ?case
    by (simp add: candidates_def Let_def)
qed

lemma GetRecordID_scan_nested:
  assumes a: "accepted_ID a"
    and mem: "GetRecordID_prefix record @ a \<in> set urls"
    and rest: "\<forall>u \<in> set urls. u = GetRecordID_prefix record @ a
                 \<or> (\<exists>n. u = GetRecordID_prefix record @ n \<and> CHR ''/'' \<in> set n)"
  shows "GetRecordID_scan record finalID urls = a"
proof -
  have sub: "set (candidates record urls) \<subseteq> {a}"
    using rest by (auto simp: candidates_def TrimPrefix_append accepted_ID_def)
  have "a \<in> set (candidates record urls)"
    using a mem by (force simp: candidates_def TrimPrefix_append)
  then have ne: "candidates record urls \<noteq> []"
    by auto
  then have "last (candidates record urls) \<in> set (candidates record urls)"
    by (rule last_in_set)
  with sub have "last (candidates record urls) = a"
    by auto
  with ne show ?thesis
    by (simp add: GetRecordID_scan_last)
qed

section \<open>The polling loop of \<open>GetRecordID\<close>\<close>

text \<open>
  No attempt number beyond 20 is reached, so the product in \<open>sleepTime\<close> does not wrap
  around, and the values of \<open>sleepTime\<close> and \<open>cumulativeWaitMillis\<close> stay far below
  \<open>2^53\<close>.
\<close>

lemma sint_of_int_250:
  assumes "0 \<le> N" "N \<le> 36893488147419103"
  shows "sint (word_of_int N * 250 :: 64 word) = N * 250"
proof -
  have "signed_take_bit (LENGTH(64) - 1) (N * 250) = N * 250"
    using assms by (intro signed_take_bit_int_eq_self) simp_all
  then have "sint (word_of_int (N * 250) :: 64 word) = N * 250"
    by (simp only: sint_sbintrunc')
  then show ?thesis
    by simp
qed

lemma sleepTime_of_int:
  assumes "0 \<le> N" "N \<le> 36893488147419103"
  shows "sleepTime (word_of_int N) = min (N * 250) 2000"
  using sint_of_int_250 [OF assms]
  by (simp add: sleepTime_def DO_RETRY_BACKOFF_FACTOR_MILLIS_def DO_MAX_SLEEP_MILLIS_def)

lemma sleepTime_of_nat:
  assumes "n \<le> 20"
  shows "sleepTime (of_nat n) = min (int n * 250) 2000"
proof -
  have "sleepTime (word_of_int (int n)) = min (int n * 250) 2000"
    using assms by (intro sleepTime_of_int) simp_all
  then show ?thesis
    by simp
qed

lemma waited_Suc:
  assumes "1 \<le> n"
  shows "waited (Suc n) = waited n + min (int n * 250) 2000"
proof -
  consider "n < 8" | "n = 8" | "8 < n"
    by linarith
  then show ?thesis
  proof cases
    case 1
    then show ?thesis
      by (simp add: waited_def algebra_simps)
  next
    case 2
    then show ?thesis
      by (simp add: waited_def)
  next
    case 3
    then show ?thesis
      by (simp add: waited_def)
  qed
qed

lemma waited_limit:
  assumes "n \<le> 20"
  shows "30000 \<le> waited n \<longleftrightarrow> n = 20"
proof (cases "n \<le> 8")
  case True
  have "int n * (int n - 1) \<le> 8 * 7"
  proof (cases "n = 0")
    case False
    with True show ?thesis
      by (intro mult_mono) simp_all
  qed simp
  with True show ?thesis
    by (simp add: waited_def)
next
  case False
  with assms show ?thesis
    by (auto simp: waited_def)
qed

lemma call_AllRecordsResponse_trace:
  "call_AllRecordsResponse c m path b s = (res, s1) \<Longrightarrow> trace s1 = trace s @ [Do m path b]"
  by (auto simp: call_AllRecordsResponse_def split: prod.splits)

lemma never_found_call:
  assumes "never_found c record"
    and "call_AllRecordsResponse c m path b s = (res, s1)"
  shows "\<exists>urls. res = Inr urls \<and> GetRecordID_scan record [] urls = []"
proof -
  obtain r w where d: "Do_AllRecordsResponse c m path b (world s) = (r, w)"
    by (cases "Do_AllRecordsResponse c m path b (world s)")
  with assms(2) have "res = r"
    by (simp add: call_AllRecordsResponse_def)
  moreover
  have "case Do_AllRecordsResponse c m path b (world s) of
          (Inl err, w') \<Rightarrow> False
        | (Inr urls, w') \<Rightarrow> GetRecordID_scan record [] urls = []"
    using assms(1) [unfolded never_found_def, rule_format, of m path b "world s"] .
  with d have "\<exists>urls. r = Inr urls \<and> GetRecordID_scan record [] urls = []"
    by (cases r) simp_all
  ultimately show ?thesis
    by simp
qed


lemma GetRecordID_loop_run:
  assumes "1 \<le> n" and "n \<le> 20"
  shows "\<exists>res s' m.
           GetRecordID_loop c record [] (of_nat n) (waited n) s = Some (res, s')
           \<and> n + m \<le> 20
           \<and> trace s' = trace s @ retry_events
                 (''AllRecord/'' @ Zone record @ ''/'' @ FQDN record) n m
           \<and> (res = Inr [] \<longrightarrow> n + m = 20)
           \<and> (never_found c record \<longrightarrow> res = Inr [])
           \<and> (\<forall>e. res = Inl e \<longrightarrow> (\<exists>msg. e = Error (''Failed to find Dyn record id: '' @ msg)))"
  using assms
proof (induction k \<equiv> "20 - n" arbitrary: n s)
  case 0
  then have n: "n = 20"
    by simp
  let ?url = "''AllRecord/'' @ Zone record @ ''/'' @ FQDN record"
  obtain res0 s1 where call: "call_AllRecordsResponse c ''GET'' ?url None s = (res0, s1)"
    by (cases "call_AllRecordsResponse c ''GET'' ?url None s")
  have tr: "trace s1 = trace s @ [Do ''GET'' ?url None]"
    using call by (rule call_AllRecordsResponse_trace)
  have w: "30000 \<le> waited n"
    using n by (simp add: waited_def)
  show ?case
  proof (cases res0)
    case (Inl err)
    have "never_found c record \<Longrightarrow> False"
      using never_found_call [OF _ call] Inl by auto
    then show ?thesis
      using call Inl tr n
      by (subst GetRecordID_loop.simps) (auto intro!: exI [of _ 0])
  next
    case (Inr urls)
    have "never_found c record \<Longrightarrow> GetRecordID_scan record [] urls = []"
      using never_found_call [OF _ call] Inr by auto
    then show ?thesis
      using call Inr tr n w
      by (subst GetRecordID_loop.simps)
        (auto simp: DO_MAX_CUMULATIVE_WAIT_MILLIS_def Let_def intro!: exI [of _ 0])
  qed
next
  case (Suc k)
  then have n: "n < 20"
    by simp
  let ?url = "''AllRecord/'' @ Zone record @ ''/'' @ FQDN record"
  let ?d = "Do ''GET'' ?url None"
  let ?ev = "retry_events ?url"
  obtain res0 s1 where call: "call_AllRecordsResponse c ''GET'' ?url None s = (res0, s1)"
    by (cases "call_AllRecordsResponse c ''GET'' ?url None s")
  have tr: "trace s1 = trace s @ [?d]"
    using call by (rule call_AllRecordsResponse_trace)
  have w: "\<not> 30000 \<le> waited n"
    using n waited_limit [of n] by simp
  show ?case
  proof (cases res0)
    case (Inl err)
    have "never_found c record \<Longrightarrow> False"
      using never_found_call [OF _ call] Inl by auto
    then show ?thesis
      using call Inl tr n
      by (subst GetRecordID_loop.simps) (auto intro!: exI [of _ 0])
  next
    case (Inr urls)
    have nf: "never_found c record \<Longrightarrow> GetRecordID_scan record [] urls = []"
      using never_found_call [OF _ call] Inr by auto
    show ?thesis
    proof (cases "GetRecordID_scan record [] urls = []")
      case False
      then show ?thesis
        using call Inr tr n nf
        by (subst GetRecordID_loop.simps) (auto simp: Let_def intro!: exI [of _ 0])
    next
      case True
      let ?s2 = "sleep (sleepTime (of_nat n)) s1"
      have st: "sleepTime (of_nat n) = min (int n * 250) 2000"
        using n by (intro sleepTime_of_nat) simp
      have step: "GetRecordID_loop c record [] (of_nat n) (waited n) s
                    = GetRecordID_loop c record [] (of_nat (Suc n)) (waited (Suc n)) ?s2"
        using call Inr True w waited_Suc [OF \<open>1 \<le> n\<close>] st
        by (subst GetRecordID_loop.simps)
          (simp add: DO_MAX_CUMULATIVE_WAIT_MILLIS_def Let_def add.commute)
      have "k = 20 - Suc n" and "1 \<le> Suc n" and "Suc n \<le> 20"
        using Suc.hyps(2) n by simp_all
      from Suc.hyps(1) [OF this, of ?s2]
      obtain res s' m where
        run: "GetRecordID_loop c record [] (of_nat (Suc n)) (waited (Suc n)) ?s2 = Some (res, s')"
        and bound: "Suc n + m \<le> 20"
        and tr': "trace s' = trace ?s2 @ ?ev (Suc n) m"
        and last: "res = Inr [] \<longrightarrow> Suc n + m = 20"
        and never: "never_found c record \<longrightarrow> res = Inr []"
        and failed: "\<forall>e. res = Inl e \<longrightarrow>
                       (\<exists>msg. e = Error (''Failed to find Dyn record id: '' @ msg))"
        by blast
      have "trace s' = trace s @ ?ev n (Suc m)"
        using tr' tr st by (simp add: sleep_def)
      with run bound last never failed step show ?thesis
        by (intro exI [of _ res] exI [of _ s'] exI [of _ "Suc m"]) simp
    qed
  qed
qed

lemma retry_events_first: "\<exists>evs. retry_events url n m = Do ''GET'' url None # evs"
  by (cases m) simp_all

lemma sleeps_retry_events:
  "sleeps (retry_events url n m) = map (\<lambda>i. min (int i * 250) 2000) [n..<n + m]"
proof (induction m arbitrary: n)
  case 0
  show ?case
    by (simp add: sleeps_def)
next
  case (Suc m)
  have "sleeps (retry_events url n (Suc m))
          = min (int n * 250) 2000 # sleeps (retry_events url (Suc n) m)"
    by (simp add: sleeps_def)
  with Suc [of "Suc n"] show ?case
    by (simp add: upt_rec [of n])
qed

lemma length_sleeps_retry_events: "length (sleeps (retry_events url n m)) = m"
  by (simp add: sleeps_retry_events)

lemma nth_sleeps_retry_events:
  "i < m \<Longrightarrow> sleeps (retry_events url n m) ! i = min (int (n + i) * 250) 2000"
  by (simp add: sleeps_retry_events del: upt_Suc)

lemma sum_sleeps_retry_events:
  assumes "1 \<le> n"
  shows "sum_list (sleeps (retry_events url n m)) = waited (n + m) - waited n"
  using assms
proof (induction m arbitrary: n)
  case 0
  show ?case
    by (simp add: sleeps_def)
next
  case (Suc m)
  have "sleeps (retry_events url n (Suc m))
          = min (int n * 250) 2000 # sleeps (retry_events url (Suc n) m)"
    by (simp add: sleeps_def)
  with Suc.IH [of "Suc n"] waited_Suc [OF Suc.prems] show ?case
    by simp
qed

lemma GetRecordID_run:
  "\<exists>res s' m.
     GetRecordID_loop c record [] 1 0 s = Some (res, s')
     \<and> m \<le> 19
     \<and> trace s' = trace s @ retry_events (''AllRecord/'' @ Zone record @ ''/'' @ FQDN record) 1 m
     \<and> (res = Inr [] \<longrightarrow> m = 19)
     \<and> (never_found c record \<longrightarrow> res = Inr [])
     \<and> (\<forall>e. res = Inl e \<longrightarrow> (\<exists>msg. e = Error (''Failed to find Dyn record id: '' @ msg)))"
  using GetRecordID_loop_run [of 1 c "record" s] by (simp add: waited_def)

lemma waited_le:
  assumes "n \<le> 20"
  shows "waited n \<le> 31000"
proof (cases "n \<le> 8")
  case True
  have "int n * (int n - 1) \<le> 8 * 7"
  proof (cases "n = 0")
    case False
    with True show ?thesis
      by (intro mult_mono) simp_all
  qed simp
  with True show ?thesis
    by (simp add: waited_def)
next
  case False
  with assms show ?thesis
    by (simp add: waited_def)
qed

lemma never_found_example: "never_found example_client ptr_record"
  by (simp add: never_found_def example_client_def GetRecordID_scan_def)

lemma example_run:
  "GetRecordID example_client ptr_record start =
     Some (Some (Error ''Failed to find Dyn record id!''), ptr_record,
           \<lparr>world = 20, trace = retry_events ''AllRecord/example.org/old.example.org'' 1 19\<rparr>)"
proof -
  have "GetRecordID_loop example_client ptr_record [] 1 0 start =
          Some (Inr [], \<lparr>world = 20,
                  trace = retry_events ''AllRecord/example.org/old.example.org'' 1 19\<rparr>)"
    by (simp add: GetRecordID_loop.simps call_AllRecordsResponse_def example_client_def sleep_def
        GetRecordID_scan_def sleepTime_def DO_RETRY_BACKOFF_FACTOR_MILLIS_def
        DO_MAX_SLEEP_MILLIS_def DO_MAX_CUMULATIVE_WAIT_MILLIS_def start_def ptr_record_def
        eval_nat_numeral)
  then show ?thesis
    by (simp add: GetRecordID_def)
qed

text \<open>
  Claim C4. \<open>GetRecordID\<close> returns for every client, record and session. It makes at most
  20 listing requests and sleeps at most 19 times in between, for at most 31000
  milliseconds in all. When it returns the error \<open>Failed to find Dyn record id!\<close>, it has
  slept 19 times, for 31000 milliseconds in all (the cumulative wait is 29000 before the last
  sleep, and the loop ends at the first check that finds it at 30000 or more), and it leaves
  the record as it was. With a client whose listings never fail and never hold an accepted
  identifier, it returns that error.
\<close>

theorem GetRecordID_terminates:
  "\<exists>err record' s' m.
     GetRecordID c record s = Some (err, record', s')
     \<and> m \<le> 19
     \<and> trace s' = trace s @ retry_events (''AllRecord/'' @ Zone record @ ''/'' @ FQDN record) 1 m
     \<and> sum_list (sleeps (retry_events (''AllRecord/'' @ Zone record @ ''/'' @ FQDN record) 1 m))
          \<le> 31000
     \<and> (err = Some (Error ''Failed to find Dyn record id!'') \<longrightarrow>
          m = 19 \<and> record' = record
          \<and> sum_list (sleeps (retry_events (''AllRecord/'' @ Zone record @ ''/'' @ FQDN record) 1 m))
              = 31000)
     \<and> (never_found c record \<longrightarrow> err = Some (Error ''Failed to find Dyn record id!''))"
proof -
  let ?ev = "retry_events (''AllRecord/'' @ Zone record @ ''/'' @ FQDN record)"
  obtain res s' m where
    run: "GetRecordID_loop c record [] 1 0 s = Some (res, s')"
    and m: "m \<le> 19"
    and tr: "trace s' = trace s @ ?ev 1 m"
    and last: "res = Inr [] \<longrightarrow> m = 19"
    and never: "never_found c record \<longrightarrow> res = Inr []"
    and failed: "\<forall>e. res = Inl e \<longrightarrow> (\<exists>msg. e = Error (''Failed to find Dyn record id: '' @ msg))"
    using GetRecordID_run [of c "record" s] by blast
  have total: "sum_list (sleeps (?ev 1 m)) = waited (Suc m)"
    using sum_sleeps_retry_events [of 1 _ m] by (simp add: waited_def)
  have le: "waited (Suc m) \<le> 31000"
    using m by (intro waited_le) simp
  have full: "m = 19 \<Longrightarrow> waited (Suc m) = 31000"
    by (simp add: waited_def)
  show ?thesis
  proof (cases res)
    case (Inl e)
    then have "GetRecordID c record s = Some (Some e, record, s')"
      using run by (simp add: GetRecordID_def)
    moreover have "\<not> never_found c record"
      using never Inl by auto
    moreover have "e \<noteq> Error ''Failed to find Dyn record id!''"
      using failed Inl by auto
    ultimately show ?thesis
      using m tr total le by auto
  next
    case (Inr finalID)
    show ?thesis
    proof (cases "finalID = []")
      case True
      then have "GetRecordID c record s
                   = Some (Some (Error ''Failed to find Dyn record id!''), record, s')"
        using run Inr by (simp add: GetRecordID_def)
      moreover have "m = 19"
        using last Inr True by simp
      ultimately show ?thesis
        using tr total full by auto
    next
      case False
      then have "GetRecordID c record s = Some (None, record\<lparr>ID := finalID\<rparr>, s')"
        using run Inr by (simp add: GetRecordID_def)
      moreover have "\<not> never_found c record"
        using never Inr False by auto
      ultimately show ?thesis
        using m tr total le by auto
    qed
  qed
qed

theorem GetRecordID_terminates_witness:
  "never_found example_client ptr_record
   \<and> (\<exists>s'. GetRecordID example_client ptr_record start
              = Some (Some (Error ''Failed to find Dyn record id!''), ptr_record, s')
           \<and> trace s' = retry_events ''AllRecord/example.org/old.example.org'' 1 19)
   \<and> sum_list (sleeps (retry_events ''AllRecord/example.org/old.example.org'' 1 19)) = 31000"
  using GetRecordID_terminates [of example_client ptr_record start] never_found_example
  by (auto simp: ptr_record_def start_def)

text \<open>
  Claim C5. For every client, record and session, \<open>GetRecordID\<close> returns, and the first
  thing it does is a \<open>GET\<close> of \<open>AllRecord/{zone}/{fqdn}\<close>.
\<close>

theorem GetRecordID_first_request:
  "\<exists>err record' s' evs.
     GetRecordID c record s = Some (err, record', s')
     \<and> trace s' = trace s
          @ Do ''GET'' (''AllRecord/'' @ Zone record @ ''/'' @ FQDN record) None # evs"
proof -
  let ?url = "''AllRecord/'' @ Zone record @ ''/'' @ FQDN record"
  obtain res s' m where
    run: "GetRecordID_loop c record [] 1 0 s = Some (res, s')"
    and tr: "trace s' = trace s @ retry_events ?url 1 m"
    using GetRecordID_run [of c "record" s] by blast
  obtain evs where "retry_events ?url 1 m = Do ''GET'' ?url None # evs"
    using retry_events_first by blast
  with tr have "trace s' = trace s @ Do ''GET'' ?url None # evs"
    by simp
  with run show ?thesis
    by (cases res) (auto simp: GetRecordID_def)
qed

theorem GetRecordID_first_request_witness:
  "\<exists>err record' s' evs.
     GetRecordID listing_client www_record \<lparr>world = www_listing, trace = []\<rparr>
       = Some (err, record', s')
     \<and> trace s' = Do ''GET'' ''AllRecord/example.com/www.example.com'' None # evs"
  using GetRecordID_first_request [of listing_client www_record
      "\<lparr>world = www_listing, trace = []\<rparr>"]
  by (simp add: www_record_def)

text \<open>
  Claim C7. In every run of \<open>GetRecordID\<close>, the sleep after attempt \<open>N\<close> (the \<open>N\<close>-th sleep of
  the run) lasts \<open>min(N * 250, 2000)\<close> milliseconds, for every \<open>N\<close> from 1 on that the run
  reaches; there are at most 19 of them. The expression of the source computes
  \<open>min(N * 250, 2000)\<close> for every \<open>N\<close> from 1 to 36893488147419103, up to which the product
  does not wrap around in 64 bits.
\<close>

theorem GetRecordID_sleep_delay:
  "(\<forall>N. 1 \<le> N \<and> N \<le> 36893488147419103 \<longrightarrow> sleepTime (word_of_int N) = min (N * 250) 2000)
   \<and> (\<exists>err record' s' evs.
         GetRecordID c record s = Some (err, record', s')
         \<and> trace s' = trace s @ evs
         \<and> length (sleeps evs) \<le> 19
         \<and> (\<forall>N. 1 \<le> N \<and> N \<le> length (sleeps evs) \<longrightarrow>
               sleeps evs ! (N - 1) = min (int N * 250) 2000))"
proof -
  let ?url = "''AllRecord/'' @ Zone record @ ''/'' @ FQDN record"
  obtain res s' m where
    run: "GetRecordID_loop c record [] 1 0 s = Some (res, s')"
    and m: "m \<le> 19"
    and tr: "trace s' = trace s @ retry_events ?url 1 m"
    using GetRecordID_run [of c "record" s] by blast
  have len: "length (sleeps (retry_events ?url 1 m)) \<le> 19"
    using m by (simp add: length_sleeps_retry_events)
  have nth: "\<forall>N. 1 \<le> N \<and> N \<le> length (sleeps (retry_events ?url 1 m)) \<longrightarrow>
               sleeps (retry_events ?url 1 m) ! (N - 1) = min (int N * 250) 2000"
  proof (intro allI impI)
    fix N
    assume "1 \<le> N \<and> N \<le> length (sleeps (retry_events ?url 1 m))"
    then have N: "1 \<le> N" "N - 1 < m"
      by (auto simp: length_sleeps_retry_events)
    from nth_sleeps_retry_events [OF N(2), of ?url 1] N(1)
    show "sleeps (retry_events ?url 1 m) ! (N - 1) = min (int N * 250) 2000"
      by simp
  qed
  have "\<exists>err record'. GetRecordID c record s = Some (err, record', s')"
    using run by (cases res) (auto simp: GetRecordID_def)
  with tr nth len have "\<exists>err record' s' evs.
         GetRecordID c record s = Some (err, record', s')
         \<and> trace s' = trace s @ evs
         \<and> length (sleeps evs) \<le> 19
         \<and> (\<forall>N. 1 \<le> N \<and> N \<le> length (sleeps evs) \<longrightarrow>
               sleeps evs ! (N - 1) = min (int N * 250) 2000)"
    by blast
  moreover have "\<forall>N. 1 \<le> N \<and> N \<le> 36893488147419103 \<longrightarrow>
                   sleepTime (word_of_int N) = min (N * 250) 2000"
    by (simp add: sleepTime_of_int)
  ultimately show ?thesis
    by blast
qed

theorem GetRecordID_sleep_delay_witness:
  "(1::int) \<le> 3 \<and> (3::int) \<le> 36893488147419103 \<and> sleepTime (word_of_int 3) = 750
   \<and> (\<exists>err record' s' evs.
         GetRecordID example_client ptr_record start = Some (err, record', s')
         \<and> trace s' = trace start @ evs
         \<and> length (sleeps evs) = 19
         \<and> sleeps evs ! (2 - 1) = 500
         \<and> sleeps evs ! (9 - 1) = 2000)"
proof -
  note inst = GetRecordID_sleep_delay [of example_client ptr_record start]
  from inst have "\<forall>N. 1 \<le> N \<and> N \<le> 36893488147419103 \<longrightarrow>
                    sleepTime (word_of_int N) = min (N * 250) 2000"
    by blast
  from this [rule_format, of 3] have first: "sleepTime (word_of_int 3) = 750"
    by simp
  from inst obtain err record' s' evs where
    run: "GetRecordID example_client ptr_record start = Some (err, record', s')"
    and tr: "trace s' = trace start @ evs"
    and nth: "\<forall>N. 1 \<le> N \<and> N \<le> length (sleeps evs) \<longrightarrow>
                sleeps evs ! (N - 1) = min (int N * 250) 2000"
    by blast
  from run example_run
  have "s' = \<lparr>world = 20, trace = retry_events ''AllRecord/example.org/old.example.org'' 1 19\<rparr>"
    by simp
  with tr have evs: "evs = retry_events ''AllRecord/example.org/old.example.org'' 1 19"
    by (simp add: start_def)
  then have len: "length (sleeps evs) = 19"
    by (simp add: length_sleeps_retry_events)
  from nth [rule_format, of 2] nth [rule_format, of 9] len
  have "sleeps evs ! (2 - 1) = 500" and "sleeps evs ! (9 - 1) = 2000"
    by simp_all
  with run tr len first show ?thesis
    by auto
qed

section \<open>The identifier that \<open>GetRecordID\<close> selects\<close>

lemma after_listings_shift:
  "after_listings c url (snd (Do_AllRecordsResponse c ''GET'' url None w)) j
     = after_listings c url w (Suc j)"
  by (induction j) simp_all

lemma listing_shift:
  "listing c url (snd (Do_AllRecordsResponse c ''GET'' url None w)) j = listing c url w (Suc j)"
  unfolding listing_def by (simp only: after_listings_shift)

lemma candidates_Nil_iff: "GetRecordID_scan record [] urls = [] \<longleftrightarrow> candidates record urls = []"
proof (cases "candidates record urls = []")
  case True
  then show ?thesis
    by (simp add: GetRecordID_scan_last)
next
  case False
  then have "last (candidates record urls) \<in> set (candidates record urls)"
    by (rule last_in_set)
  then have "last (candidates record urls) \<noteq> []"
    by (auto simp: candidates_def accepted_ID_def)
  with False show ?thesis
    by (simp add: GetRecordID_scan_last)
qed

lemma GetRecordID_loop_listing:
  assumes "1 \<le> n" and "n + k \<le> 20"
    and before: "\<forall>j<k. \<exists>us. listing c (''AllRecord/'' @ Zone record @ ''/'' @ FQDN record)
                                (world s) j = Inr us \<and> candidates record us = []"
    and stop: "(\<exists>e. listing c (''AllRecord/'' @ Zone record @ ''/'' @ FQDN record) (world s) k = Inl e)
               \<or> (\<exists>us. listing c (''AllRecord/'' @ Zone record @ ''/'' @ FQDN record) (world s) k
                          = Inr us \<and> candidates record us \<noteq> [])
               \<or> n + k = 20"
  shows "GetRecordID_loop c record [] (of_nat n) (waited n) s =
           Some (case listing c (''AllRecord/'' @ Zone record @ ''/'' @ FQDN record) (world s) k of
                   Inl e \<Rightarrow> Inl (Error (''Failed to find Dyn record id: '' @ message e))
                 | Inr us \<Rightarrow> Inr (GetRecordID_scan record [] us),
                 \<lparr>world = after_listings c (''AllRecord/'' @ Zone record @ ''/'' @ FQDN record)
                            (world s) (Suc k),
                  trace = trace s @ retry_events
                            (''AllRecord/'' @ Zone record @ ''/'' @ FQDN record) n k\<rparr>)"
  using assms
proof (induction k arbitrary: n s)
  case 0
  let ?url = "''AllRecord/'' @ Zone record @ ''/'' @ FQDN record"
  obtain res0 w1 where d: "Do_AllRecordsResponse c ''GET'' ?url None (world s) = (res0, w1)"
    by (cases "Do_AllRecordsResponse c ''GET'' ?url None (world s)")
  then have l0: "listing c ?url (world s) 0 = res0"
    by (simp add: listing_def)
  show ?case
  proof (cases res0)
    case (Inl e)
    with d l0 show ?thesis
      by (subst GetRecordID_loop.simps) (simp add: call_AllRecordsResponse_def)
  next
    case (Inr us)
    from "0.prems"(4) l0 Inr have "candidates record us \<noteq> [] \<or> n = 20"
      by auto
    then have "GetRecordID_scan record [] us \<noteq> [] \<or> 30000 \<le> waited n"
      using waited_limit [of n] by (auto simp: candidates_Nil_iff)
    with d l0 Inr show ?thesis
      by (subst GetRecordID_loop.simps)
        (auto simp: call_AllRecordsResponse_def DO_MAX_CUMULATIVE_WAIT_MILLIS_def Let_def)
  qed
next
  case (Suc k)
  let ?url = "''AllRecord/'' @ Zone record @ ''/'' @ FQDN record"
  obtain res0 w1 where d: "Do_AllRecordsResponse c ''GET'' ?url None (world s) = (res0, w1)"
    by (cases "Do_AllRecordsResponse c ''GET'' ?url None (world s)")
  then have l0: "listing c ?url (world s) 0 = res0"
    by (simp add: listing_def)
  from Suc.prems(3) obtain us where us: "res0 = Inr us" "candidates record us = []"
    using l0 by auto
  have n: "n < 20"
    using Suc.prems(2) by simp
  have w: "\<not> 30000 \<le> waited n"
    using n waited_limit [of n] by simp
  have st: "sleepTime (of_nat n) = min (int n * 250) 2000"
    using n by (intro sleepTime_of_nat) simp
  let ?s2 = "sleep (sleepTime (of_nat n)) \<lparr>world = w1, trace = trace s @ [Do ''GET'' ?url None]\<rparr>"
  have sc: "GetRecordID_scan record [] us = []"
    using us(2) by (simp add: candidates_Nil_iff)
  have step: "GetRecordID_loop c record [] (of_nat n) (waited n) s
                = GetRecordID_loop c record [] (of_nat (Suc n)) (waited (Suc n)) ?s2"
    using d us(1) sc w waited_Suc [OF \<open>1 \<le> n\<close>] st
    by (subst GetRecordID_loop.simps)
      (simp add: call_AllRecordsResponse_def
        DO_MAX_CUMULATIVE_WAIT_MILLIS_def Let_def add.commute)
  have world2: "world ?s2 = snd (Do_AllRecordsResponse c ''GET'' ?url None (world s))"
    using d by (simp add: sleep_def)
  have trace2: "trace ?s2 = trace s @ [Do ''GET'' ?url None, Sleep (min (int n * 250) 2000)]"
    by (simp add: sleep_def st)
  have shift: "listing c ?url (world ?s2) j = listing c ?url (world s) (Suc j)" for j
    by (simp only: world2 listing_shift)
  have ashift: "after_listings c ?url (world ?s2) j = after_listings c ?url (world s) (Suc j)" for j
    by (simp only: world2 after_listings_shift)
  have before': "\<forall>j<k. \<exists>us. listing c ?url (world ?s2) j = Inr us \<and> candidates record us = []"
    using Suc.prems(3) unfolding shift by auto
  have stop': "(\<exists>e. listing c ?url (world ?s2) k = Inl e)
               \<or> (\<exists>us. listing c ?url (world ?s2) k = Inr us \<and> candidates record us \<noteq> [])
               \<or> Suc n + k = 20"
    using Suc.prems(4) unfolding shift by simp
  have "1 \<le> Suc n" and "Suc n + k \<le> 20"
    using Suc.prems(2) by simp_all
  from Suc.IH [OF this before' stop'] step show ?case
    unfolding shift ashift trace2 by simp
qed


lemma GetRecordID_loop_first_stop:
  "\<exists>k\<le>19.
     (\<forall>j<k. \<exists>us. listing c url w j = Inr us \<and> candidates record us = [])
     \<and> ((\<exists>e. listing c url w k = Inl e)
          \<or> (\<exists>us. listing c url w k = Inr us \<and> candidates record us \<noteq> [])
          \<or> k = 19)"
proof -
  define P where "P j \<longleftrightarrow> (\<exists>e. listing c url w j = Inl e)
      \<or> (\<exists>us. listing c url w j = Inr us \<and> candidates record us \<noteq> []) \<or> j = 19" for j
  have "P 19"
    by (simp add: P_def)
  then have least: "P (LEAST j. P j)" and le: "(LEAST j. P j) \<le> 19"
    by (rule LeastI, rule Least_le)
  have "\<exists>us. listing c url w j = Inr us \<and> candidates record us = []" if "j < (LEAST j. P j)" for j
  proof -
    from that have "\<not> P j"
      by (rule not_less_Least)
    then show ?thesis
      unfolding P_def by (cases "listing c url w j") auto
  qed
  with least le show ?thesis
    unfolding P_def by blast
qed

lemma GetRecordID_found:
  assumes "k \<le> 19"
    and "\<forall>j<k. \<exists>us. listing c (''AllRecord/'' @ Zone record @ ''/'' @ FQDN record)
                        (world s) j = Inr us \<and> candidates record us = []"
    and "listing c (''AllRecord/'' @ Zone record @ ''/'' @ FQDN record) (world s) k = Inr urls"
    and "candidates record urls \<noteq> []"
  shows "GetRecordID c record s =
           Some (None, record\<lparr>ID := last (candidates record urls)\<rparr>,
                 \<lparr>world = after_listings c (''AllRecord/'' @ Zone record @ ''/'' @ FQDN record)
                            (world s) (Suc k),
                  trace = trace s @ retry_events
                            (''AllRecord/'' @ Zone record @ ''/'' @ FQDN record) 1 k\<rparr>)"
proof -
  have "GetRecordID_scan record [] urls \<noteq> []"
    using assms(4) by (simp add: candidates_Nil_iff)
  moreover have "GetRecordID_scan record [] urls = last (candidates record urls)"
    using assms(4) by (simp add: GetRecordID_scan_last)
  ultimately show ?thesis
    using GetRecordID_loop_listing [of 1 k c "record" s] assms
    by (simp add: GetRecordID_def waited_def)
qed

lemma GetRecordID_found_only:
  assumes "GetRecordID c record s = Some (None, record', s')"
  shows "\<exists>k us. k \<le> 19
           \<and> (\<forall>j<k. \<exists>us. listing c (''AllRecord/'' @ Zone record @ ''/'' @ FQDN record)
                              (world s) j = Inr us \<and> candidates record us = [])
           \<and> listing c (''AllRecord/'' @ Zone record @ ''/'' @ FQDN record) (world s) k = Inr us
           \<and> candidates record us \<noteq> []
           \<and> record' = record\<lparr>ID := last (candidates record us)\<rparr>"
proof -
  let ?url = "''AllRecord/'' @ Zone record @ ''/'' @ FQDN record"
  obtain k where k: "k \<le> 19"
    and before: "\<forall>j<k. \<exists>us. listing c ?url (world s) j = Inr us \<and> candidates record us = []"
    and stop: "(\<exists>e. listing c ?url (world s) k = Inl e)
               \<or> (\<exists>us. listing c ?url (world s) k = Inr us \<and> candidates record us \<noteq> [])
               \<or> k = 19"
    using GetRecordID_loop_first_stop [of c ?url "world s" "record"] by blast
  from stop have stop': "(\<exists>e. listing c ?url (world s) k = Inl e)
               \<or> (\<exists>us. listing c ?url (world s) k = Inr us \<and> candidates record us \<noteq> [])
               \<or> 1 + k = 20"
    by auto
  have run: "GetRecordID_loop c record [] 1 0 s =
           Some (case listing c ?url (world s) k of
                   Inl e \<Rightarrow> Inl (Error (''Failed to find Dyn record id: '' @ message e))
                 | Inr us \<Rightarrow> Inr (GetRecordID_scan record [] us),
                 \<lparr>world = after_listings c ?url (world s) (Suc k),
                  trace = trace s @ retry_events ?url 1 k\<rparr>)"
    using GetRecordID_loop_listing [of 1 k c "record" s, OF _ _ before stop'] k
    by (simp add: waited_def)
  show ?thesis
  proof (cases "listing c ?url (world s) k")
    case (Inl e)
    with run assms show ?thesis
      by (simp add: GetRecordID_def)
  next
    case (Inr us)
    with run assms have ne: "GetRecordID_scan record [] us \<noteq> []"
      and r: "record' = record\<lparr>ID := GetRecordID_scan record [] us\<rparr>"
      by (auto simp: GetRecordID_def split: if_splits)
    from ne have c: "candidates record us \<noteq> []"
      by (simp add: candidates_Nil_iff)
    with r have "record' = record\<lparr>ID := last (candidates record us)\<rparr>"
      by (simp add: GetRecordID_scan_last)
    with k before Inr c show ?thesis
      by blast
  qed
qed

lemma GetRecordID_scan_nested_last:
  assumes "accepted_ID a"
    and "GetRecordID_prefix record @ a \<in> set urls"
    and "\<forall>u \<in> set urls. u = GetRecordID_prefix record @ a
           \<or> (\<exists>n. u = GetRecordID_prefix record @ n \<and> CHR ''/'' \<in> set n)"
  shows "candidates record urls \<noteq> [] \<and> last (candidates record urls) = a"
proof -
  have "GetRecordID_scan record [] urls = a"
    using assms by (rule GetRecordID_scan_nested)
  moreover have "a \<noteq> []"
    using assms(1) by (simp add: accepted_ID_def)
  ultimately show ?thesis
    by (auto simp: GetRecordID_scan_last split: if_splits)
qed

text \<open>
  Claim C3. One pass of the inner loop of \<open>GetRecordID\<close> over a listing leaves in
  \<open>finalID\<close> the last of the candidates of the listing, in the order of the listing, and
  leaves \<open>finalID\<close> as it was when the listing has no candidate; a candidate is what is
  left of a URL after the prefix \<open>/REST/{type}Record/{zone}/{fqdn}/\<close> is trimmed, when it is
  not empty and holds no \<open>/\<close>. In particular, when every URL of the listing is either
  the prefix followed by the accepted identifier \<open>a\<close> or the prefix followed by a nested
  path, and the former occurs, \<open>a\<close> is the one candidate that is left, and the last.
  \<open>GetRecordID\<close> as a whole: when the listings before number \<open>k\<close> (at most 19) have no
  candidate and listing number \<open>k\<close> has one, \<open>GetRecordID\<close> returns without an error after
  \<open>k + 1\<close> requests, the ID of the record being the last candidate of that listing. And
  whenever \<open>GetRecordID\<close> returns without an error, the ID it has set is the last candidate
  of the first listing that has a candidate, all listings before it having succeeded with
  none.
\<close>

theorem GetRecordID_selects:
  "GetRecordID_scan record finalID urls =
     (if candidates record urls = [] then finalID else last (candidates record urls))
   \<and> (accepted_ID a \<and> GetRecordID_prefix record @ a \<in> set urls
       \<and> (\<forall>u \<in> set urls. u = GetRecordID_prefix record @ a
              \<or> (\<exists>n. u = GetRecordID_prefix record @ n \<and> CHR ''/'' \<in> set n)) \<longrightarrow>
      GetRecordID_scan record finalID urls = a
      \<and> candidates record urls \<noteq> [] \<and> last (candidates record urls) = a)
   \<and> (k \<le> 19
       \<and> (\<forall>j<k. \<exists>us. listing c (''AllRecord/'' @ Zone record @ ''/'' @ FQDN record)
                          (world s) j = Inr us \<and> candidates record us = [])
       \<and> listing c (''AllRecord/'' @ Zone record @ ''/'' @ FQDN record) (world s) k = Inr urls
       \<and> candidates record urls \<noteq> [] \<longrightarrow>
      GetRecordID c record s =
        Some (None, record\<lparr>ID := last (candidates record urls)\<rparr>,
              \<lparr>world = after_listings c (''AllRecord/'' @ Zone record @ ''/'' @ FQDN record)
                         (world s) (Suc k),
               trace = trace s @ retry_events
                         (''AllRecord/'' @ Zone record @ ''/'' @ FQDN record) 1 k\<rparr>))
   \<and> (GetRecordID c record s = Some (None, record', s') \<longrightarrow>
      (\<exists>i us. i \<le> 19
         \<and> (\<forall>j<i. \<exists>us. listing c (''AllRecord/'' @ Zone record @ ''/'' @ FQDN record)
                            (world s) j = Inr us \<and> candidates record us = [])
         \<and> listing c (''AllRecord/'' @ Zone record @ ''/'' @ FQDN record) (world s) i = Inr us
         \<and> candidates record us \<noteq> []
         \<and> record' = record\<lparr>ID := last (candidates record us)\<rparr>))"
proof (intro conjI impI)
  show "GetRecordID_scan record finalID urls =
     (if candidates record urls = [] then finalID else last (candidates record urls))"
    by (rule GetRecordID_scan_last)
next
  assume h: "accepted_ID a \<and> GetRecordID_prefix record @ a \<in> set urls
       \<and> (\<forall>u \<in> set urls. u = GetRecordID_prefix record @ a
              \<or> (\<exists>n. u = GetRecordID_prefix record @ n \<and> CHR ''/'' \<in> set n))"
  then show "GetRecordID_scan record finalID urls = a"
    by (intro GetRecordID_scan_nested) simp_all
  from h show "candidates record urls \<noteq> []" and "last (candidates record urls) = a"
    using GetRecordID_scan_nested_last [of a "record" urls] by simp_all
next
  assume "k \<le> 19
       \<and> (\<forall>j<k. \<exists>us. listing c (''AllRecord/'' @ Zone record @ ''/'' @ FQDN record)
                          (world s) j = Inr us \<and> candidates record us = [])
       \<and> listing c (''AllRecord/'' @ Zone record @ ''/'' @ FQDN record) (world s) k = Inr urls
       \<and> candidates record urls \<noteq> []"
  then show "GetRecordID c record s =
        Some (None, record\<lparr>ID := last (candidates record urls)\<rparr>,
              \<lparr>world = after_listings c (''AllRecord/'' @ Zone record @ ''/'' @ FQDN record)
                         (world s) (Suc k),
               trace = trace s @ retry_events
                         (''AllRecord/'' @ Zone record @ ''/'' @ FQDN record) 1 k\<rparr>)"
    by (intro GetRecordID_found) simp_all
next
  assume "GetRecordID c record s = Some (None, record', s')"
  then show "\<exists>i us. i \<le> 19
         \<and> (\<forall>j<i. \<exists>us. listing c (''AllRecord/'' @ Zone record @ ''/'' @ FQDN record)
                            (world s) j = Inr us \<and> candidates record us = [])
         \<and> listing c (''AllRecord/'' @ Zone record @ ''/'' @ FQDN record) (world s) i = Inr us
         \<and> candidates record us \<noteq> []
         \<and> record' = record\<lparr>ID := last (candidates record us)\<rparr>"
    by (rule GetRecordID_found_only)
qed

theorem GetRecordID_selects_witness:
  "listing eventual_client ''AllRecord/example.com/www.example.com'' 0 0 = Inr []
   \<and> listing eventual_client ''AllRecord/example.com/www.example.com'' 0 1 = Inr []
   \<and> listing eventual_client ''AllRecord/example.com/www.example.com'' 0 2 = Inr www_listing
   \<and> accepted_ID ''123''
   \<and> GetRecordID_prefix www_record @ ''123'' = www_listing ! 0
   \<and> GetRecordID_prefix www_record @ ''123/notes'' = www_listing ! 1
   \<and> CHR ''/'' \<in> set ''123/notes''
   \<and> candidates www_record www_listing = [''123'']
   \<and> GetRecordID_scan www_record [] www_listing = ''123''
   \<and> GetRecordID eventual_client www_record start =
        Some (None, www_record\<lparr>ID := ''123''\<rparr>,
              \<lparr>world = 3,
               trace = [Do ''GET'' ''AllRecord/example.com/www.example.com'' None, Sleep 250,
                        Do ''GET'' ''AllRecord/example.com/www.example.com'' None, Sleep 500,
                        Do ''GET'' ''AllRecord/example.com/www.example.com'' None]\<rparr>)
   \<and> (\<exists>i us. i \<le> 19
          \<and> listing eventual_client ''AllRecord/example.com/www.example.com'' 0 i = Inr us
          \<and> candidates www_record us \<noteq> []
          \<and> www_record\<lparr>ID := ''123''\<rparr> = www_record\<lparr>ID := last (candidates www_record us)\<rparr>)"
proof -
  let ?url = "''AllRecord/example.com/www.example.com''"
  have url: "''AllRecord/'' @ Zone www_record @ ''/'' @ FQDN www_record = ?url"
    by (simp add: www_record_def)
  have pre: "GetRecordID_prefix www_record = ''/REST/ARecord/example.com/www.example.com/''"
    by (simp add: GetRecordID_prefix_def www_record_def)
  have l: "listing eventual_client ?url 0 0 = Inr []" "listing eventual_client ?url 0 1 = Inr []"
    "listing eventual_client ?url 0 2 = Inr www_listing"
    by (simp_all add: listing_def eventual_client_def eval_nat_numeral)
  have w: "after_listings eventual_client ?url 0 (Suc 2) = 3"
    by (simp add: eventual_client_def eval_nat_numeral)
  have acc: "accepted_ID ''123''"
    by (simp add: accepted_ID_def)
  have mem: "GetRecordID_prefix www_record @ ''123'' \<in> set www_listing"
    by (simp add: pre www_listing_def)
  have rest: "\<forall>u \<in> set www_listing. u = GetRecordID_prefix www_record @ ''123''
                \<or> (\<exists>n. u = GetRecordID_prefix www_record @ n \<and> CHR ''/'' \<in> set n)"
    by (simp add: pre www_listing_def)
  have none: "candidates www_record [] = []"
    by (simp add: candidates_def)
  have before: "\<forall>j<2. \<exists>us. listing eventual_client ?url (world start) j = Inr us
                             \<and> candidates www_record us = []"
  proof (intro allI impI)
    fix j :: nat
    assume "j < 2"
    then have "j = 0 \<or> j = 1"
      by auto
    with l(1,2) none
    show "\<exists>us. listing eventual_client ?url (world start) j = Inr us \<and> candidates www_record us = []"
      by (auto simp: start_def)
  qed
  note inst = GetRecordID_selects [of www_record "[]" www_listing "''123''" 2 eventual_client start
      "www_record\<lparr>ID := ''123''\<rparr>"
      "\<lparr>world = 3, trace = trace start @ retry_events ?url 1 2\<rparr>", unfolded url]
  from inst acc mem rest
  have scan: "GetRecordID_scan www_record [] www_listing = ''123''"
    and ne: "candidates www_record www_listing \<noteq> []"
    and last: "last (candidates www_record www_listing) = ''123''"
    by blast+
  have l2: "listing eventual_client ?url (world start) 2 = Inr www_listing"
    using l(3) by (simp add: start_def)
  have w': "after_listings eventual_client ?url (world start) (Suc 2) = 3"
    using w by (simp add: start_def)
  have two: "(2::nat) \<le> 19"
    by simp
  from inst two before l2 ne
  have "GetRecordID eventual_client www_record start =
          Some (None, www_record\<lparr>ID := last (candidates www_record www_listing)\<rparr>,
                \<lparr>world = after_listings eventual_client ?url (world start) (Suc 2),
                 trace = trace start @ retry_events ?url 1 2\<rparr>)"
    by blast
  then have run: "GetRecordID eventual_client www_record start =
          Some (None, www_record\<lparr>ID := ''123''\<rparr>,
                \<lparr>world = 3, trace = trace start @ retry_events ?url 1 2\<rparr>)"
    by (simp only: last w')
  with inst have "\<exists>i us. i \<le> 19
          \<and> (\<forall>j<i. \<exists>us. listing eventual_client ?url (world start) j = Inr us
                             \<and> candidates www_record us = [])
          \<and> listing eventual_client ?url (world start) i = Inr us
          \<and> candidates www_record us \<noteq> []
          \<and> www_record\<lparr>ID := ''123''\<rparr> = www_record\<lparr>ID := last (candidates www_record us)\<rparr>"
    by blast
  then have conv: "\<exists>i us. i \<le> 19
          \<and> listing eventual_client ?url 0 i = Inr us
          \<and> candidates www_record us \<noteq> []
          \<and> www_record\<lparr>ID := ''123''\<rparr> = www_record\<lparr>ID := last (candidates www_record us)\<rparr>"
    by (auto simp: start_def)
  have cands: "candidates www_record www_listing = [''123'']"
    by (simp add: candidates_def pre www_listing_def TrimPrefix_def HasPrefix_def accepted_ID_def)
  have tr: "trace start @ retry_events ?url 1 2 =
              [Do ''GET'' ?url None, Sleep 250, Do ''GET'' ?url None, Sleep 500,
               Do ''GET'' ?url None]"
    by (simp add: start_def eval_nat_numeral)
  have idx: "GetRecordID_prefix www_record @ ''123'' = www_listing ! 0"
    "GetRecordID_prefix www_record @ ''123/notes'' = www_listing ! 1"
    by (simp_all add: pre www_listing_def)
  from run tr have run': "GetRecordID eventual_client www_record start =
        Some (None, www_record\<lparr>ID := ''123''\<rparr>,
              \<lparr>world = 3,
               trace = [Do ''GET'' ?url None, Sleep 250, Do ''GET'' ?url None, Sleep 500,
                        Do ''GET'' ?url None]\<rparr>)"
    by (simp only:)
  have sl: "CHR ''/'' \<in> set ''123/notes''"
    by simp
  from l acc idx sl cands scan run' conv show ?thesis
    by (intro conjI)
qed

section \<open>Scanning the value of an MX record\<close>

subsection \<open>Printing and parsing a decimal integer\<close>








subsection \<open>A value that \<open>fmt.Sprintf("%d %s", ...)\<close> has printed\<close>

lemma decodeRunes_Nil: "decodeRunes [] = []"
  by (subst decodeRunes.simps) simp

lemma decodeRunes_ascii_Cons:
  "ascii c \<Longrightarrow> decodeRunes (c # s) = of_char c # decodeRunes s"
  by (subst decodeRunes.simps) (simp add: ascii_def)

lemma decodeRunes_ascii_append:
  "list_all ascii a \<Longrightarrow> decodeRunes (a @ s) = map of_char a @ decodeRunes s"
  by (induction a) (simp_all add: decodeRunes_ascii_Cons)


lemma AppendRune_of_char: "ascii c \<Longrightarrow> AppendRune (of_char c) = [c]"
  by (simp add: AppendRune_def ascii_def)

lemma runes_string_ascii: "list_all ascii a \<Longrightarrow> runes_string (map of_char a) = a"
  by (induction a) (simp_all add: runes_string_def AppendRune_of_char)

lemma runes_string_append: "runes_string (xs @ ys) = runes_string xs @ runes_string ys"
  by (simp add: runes_string_def)




lemma printable_exchange_token:
  assumes "e \<noteq> []" and "list_all (\<lambda>c. 32 < (of_char c :: int) \<and> (of_char c :: int) < 127) e"
  shows "exchange_token e"
proof -
  have a: "list_all ascii e"
    using assms(2) by (induction e) (simp_all add: ascii_def)
  then have d: "decodeRunes e = map of_char e"
    using decodeRunes_ascii_append [of e "[]"] by (simp add: decodeRunes_Nil)
  have "list_all (\<lambda>r. \<not> isSpace r) (map of_char e :: int list)"
    using assms(2) by (induction e) (auto simp: isSpace_def)
  with a d assms(1) show ?thesis
    by (simp add: exchange_token_def runes_string_ascii)
qed








subsection \<open>A value with no integer, or with nothing after it\<close>

lemma SkipSpace_Some: "SkipSpace rs = Some rs1 \<Longrightarrow> rs1 = dropWhile isSpace rs"
proof (induction rs rule: SkipSpace.induct)
  case 1
  then show ?case
    by simp
next
  case (2 r rs)
  have "r = 13 \<Longrightarrow> isSpace r" and "r = 10 \<Longrightarrow> isSpace r"
    by (simp_all add: isSpace_def)
  with 2 show ?case
    by (auto split: if_splits)
qed

lemma SkipSpace_all_space:
  "list_all isSpace rs \<Longrightarrow> SkipSpace rs = None \<or> SkipSpace rs = Some []"
  by (induction rs rule: SkipSpace.induct) auto

lemma scanInt_Some:
  assumes "scanInt rs = Some (p, rest)"
  shows "\<exists>r rs1. dropWhile isSpace rs = r # rs1
           \<and> rest = dropWhile isDigitRune (if isSign r then rs1 else r # rs1)
           \<and> (if isSign r then (case rs1 of [] \<Rightarrow> False | d # _ \<Rightarrow> 48 \<le> d \<and> d \<le> 57)
               else 48 \<le> r \<and> r \<le> 57)"
proof -
  from assms obtain rs1 where skip: "SkipSpace rs = Some rs1"
    by (auto simp: scanInt_def split: option.splits)
  then have rs1: "rs1 = dropWhile isSpace rs"
    by (rule SkipSpace_Some)
  from assms skip have ne: "rs1 \<noteq> []"
    by (auto simp: scanInt_def split: if_splits)
  then obtain r t where rt: "rs1 = r # t"
    by (cases rs1) simp_all
  show ?thesis
  proof (cases "isSign r")
    case True
    from assms skip rt True obtain d t' where t: "t = d # t'" and d: "isDigitRune d"
      and rest: "rest = dropWhile isDigitRune t"
      by (cases t) (auto simp: scanInt_def Let_def split: if_splits option.splits)
    from d have "48 \<le> d \<and> d \<le> 57"
      by (simp add: isDigitRune_def)
    with True t rest rt rs1 show ?thesis
      by simp
  next
    case False
    from assms skip rt False have d: "isDigitRune r"
      and rest: "rest = dropWhile isDigitRune (r # t)"
      by (auto simp: scanInt_def Let_def split: if_splits option.splits)
    from d have "48 \<le> r \<and> r \<le> 57"
      by (simp add: isDigitRune_def)
    with False rest rt rs1 show ?thesis
      by simp
  qed
qed

lemma Sscanf_d_s_no_integer:
  assumes "\<not> leading_integer str"
  shows "Sscanf_d_s str = (None, None)"
proof (cases "Option.bind (SkipSpace (decodeRunes str)) scanInt")
  case None
  then show ?thesis
    by (simp add: Sscanf_d_s_def)
next
  case (Some res)
  obtain p rest where res: "res = (p, rest)"
    by (cases res)
  from Some obtain rs0 where skip: "SkipSpace (decodeRunes str) = Some rs0"
    and scan: "scanInt rs0 = Some (p, rest)"
    by (auto simp: res bind_eq_Some_conv)
  have idem: "dropWhile isSpace rs0 = dropWhile isSpace (decodeRunes str)"
    using SkipSpace_Some [OF skip] by simp
  from scanInt_Some [OF scan] obtain r rs1 where
    cons: "dropWhile isSpace rs0 = r # rs1"
    and digit: "if isSign r then (case rs1 of [] \<Rightarrow> False | d # _ \<Rightarrow> 48 \<le> d \<and> d \<le> 57)
                else 48 \<le> r \<and> r \<le> 57"
    by blast
  from cons idem have "dropWhile isSpace (decodeRunes str) = r # rs1"
    by simp
  with digit have "leading_integer str"
    by (simp add: leading_integer_def)
  with assms show ?thesis
    by simp
qed

lemma tail_dropWhile_digits:
  assumes "list_all isSpace (dropWhile (\<lambda>r. \<not> isSpace r) xs)"
  shows "list_all isSpace (dropWhile (\<lambda>r. \<not> isSpace r) (dropWhile isDigitRune xs))"
  using assms
proof (induction xs)
  case Nil
  then show ?case
    by simp
next
  case (Cons x xs)
  have "isDigitRune x \<Longrightarrow> \<not> isSpace x"
    by (auto simp: isDigitRune_def isSpace_def)
  with Cons show ?case
    by (cases "isDigitRune x") simp_all
qed

lemma convertString_no_token:
  assumes "list_all isSpace (dropWhile (\<lambda>r. \<not> isSpace r) rest)"
  shows "Option.bind (Option.bind (advance_space rest) SkipSpace) convertString = None"
proof (cases rest)
  case Nil
  then show ?thesis
    by (simp add: advance_space_def convertString_def)
next
  case (Cons r t)
  show ?thesis
  proof (cases "isSpace r \<and> r \<noteq> 10")
    case False
    then show ?thesis
      by (auto simp: advance_space_def Cons)
  next
    case True
    with assms have all: "list_all isSpace rest"
      by (simp add: Cons)
    have "list_all isSpace (dropWhile (\<lambda>r. isSpace r \<and> r \<noteq> 10) rest)"
      using all by (auto simp: list_all_iff dest: set_dropWhileD)
    then have "SkipSpace (dropWhile (\<lambda>r. isSpace r \<and> r \<noteq> 10) rest) = None
               \<or> SkipSpace (dropWhile (\<lambda>r. isSpace r \<and> r \<noteq> 10) rest) = Some []"
      by (rule SkipSpace_all_space)
    moreover have "advance_space rest = Some (dropWhile (\<lambda>r. isSpace r \<and> r \<noteq> 10) rest)"
      using True by (simp add: advance_space_def Cons)
    moreover have "convertString [] = None"
      by (simp add: convertString_def)
    ultimately show ?thesis
      by auto
  qed
qed

lemma Sscanf_d_s_no_second_token:
  assumes "no_second_token str"
  shows "snd (Sscanf_d_s str) = None"
proof (cases "Option.bind (SkipSpace (decodeRunes str)) scanInt")
  case None
  then show ?thesis
    by (simp add: Sscanf_d_s_def)
next
  case (Some res)
  obtain p rest where res: "res = (p, rest)"
    by (cases res)
  from Some obtain rs0 where skip: "SkipSpace (decodeRunes str) = Some rs0"
    and scan: "scanInt rs0 = Some (p, rest)"
    by (auto simp: res bind_eq_Some_conv)
  have rs0: "rs0 = dropWhile isSpace (decodeRunes str)"
    using skip by (rule SkipSpace_Some)
  then have tail0: "list_all isSpace (dropWhile (\<lambda>r. \<not> isSpace r) rs0)"
    using assms by (simp add: no_second_token_def)
  from scanInt_Some [OF scan] obtain r rs1 where
    cons: "dropWhile isSpace rs0 = r # rs1"
    and rest: "rest = dropWhile isDigitRune (if isSign r then rs1 else r # rs1)"
    by blast
  have rs0': "rs0 = r # rs1"
    using cons rs0 by simp
  have "\<not> isSpace r"
    using cons by (metis hd_dropWhile list.sel(1) list.discI)
  with tail0 have tail1: "list_all isSpace (dropWhile (\<lambda>r. \<not> isSpace r) rs1)"
    by (simp add: rs0')
  have "list_all isSpace (dropWhile (\<lambda>r. \<not> isSpace r) rest)"
  proof (cases "isSign r")
    case True
    with rest have "rest = dropWhile isDigitRune rs1"
      by simp
    with tail1 show ?thesis
      by (simp only: tail_dropWhile_digits)
  next
    case False
    with rest have "rest = dropWhile isDigitRune rs0"
      by (simp add: rs0')
    with tail0 show ?thesis
      by (simp only: tail_dropWhile_digits)
  qed
  then have "Option.bind (Option.bind (advance_space rest) SkipSpace) convertString = None"
    by (rule convertString_no_token)
  with Some res show ?thesis
    by (simp add: Sscanf_d_s_def)
qed

text \<open>
  Claim C9. For an MX record \<open>buildRData\<close> returns no error, whatever the value. When the
  value does not start with an integer, the \<open>DataBlock\<close> has \<open>Preference\<close> 0 and an empty
  \<open>Exchange\<close>; when the value has no second token, the \<open>DataBlock\<close> has an empty
  \<open>Exchange\<close>.
\<close>

theorem buildRData_MX_no_error:
  "Type r = ''MX'' \<longrightarrow>
     snd (buildRData r) = None
     \<and> (\<not> leading_integer (Value r) \<longrightarrow>
          Preference (fst (buildRData r)) = 0 \<and> Exchange (fst (buildRData r)) = [])
     \<and> (no_second_token (Value r) \<longrightarrow> Exchange (fst (buildRData r)) = [])"
proof (intro impI conjI)
  assume mx: "Type r = ''MX''"
  then show "snd (buildRData r) = None"
    by (simp add: buildRData_def Let_def split: prod.splits)
  {
    assume "\<not> leading_integer (Value r)"
    then have "Sscanf_d_s (Value r) = (None, None)"
      by (rule Sscanf_d_s_no_integer)
    with mx show "Preference (fst (buildRData r)) = 0" and "Exchange (fst (buildRData r)) = []"
      by (simp_all add: buildRData_def Let_def)
  }
  {
    assume "no_second_token (Value r)"
    then have "snd (Sscanf_d_s (Value r)) = None"
      by (rule Sscanf_d_s_no_second_token)
    with mx show "Exchange (fst (buildRData r)) = []"
      by (cases "Sscanf_d_s (Value r)") (simp add: buildRData_def Let_def)
  }
qed

theorem buildRData_MX_no_error_witness:
  "Type (mx_record ''mail.example.com'') = ''MX''
   \<and> \<not> leading_integer (Value (mx_record ''mail.example.com''))
   \<and> buildRData (mx_record ''mail.example.com'') = (DataBlock_zero, None)
   \<and> Type (mx_record ''10'') = ''MX''
   \<and> no_second_token (Value (mx_record ''10''))
   \<and> buildRData (mx_record ''10'') = (DataBlock_zero\<lparr>Preference := 10\<rparr>, None)"
proof -
  have no_int: "\<not> leading_integer (Value (mx_record ''mail.example.com''))"
    by code_simp
  have no_tok: "no_second_token (Value (mx_record ''10''))"
    by code_simp
  have mx: "Type (mx_record ''mail.example.com'') = ''MX''" "Type (mx_record ''10'') = ''MX''"
    by (simp_all add: mx_record_def)
  have ev1: "buildRData (mx_record ''mail.example.com'') = (DataBlock_zero, None)"
    by code_simp
  have ev2: "buildRData (mx_record ''10'') = (DataBlock_zero\<lparr>Preference := 10\<rparr>, None)"
    by code_simp
  from buildRData_MX_no_error [of "mx_record ''mail.example.com''"] mx(1) no_int
  have "snd (buildRData (mx_record ''mail.example.com'')) = None
        \<and> Preference (fst (buildRData (mx_record ''mail.example.com''))) = 0
        \<and> Exchange (fst (buildRData (mx_record ''mail.example.com''))) = []"
    by blast
  moreover from buildRData_MX_no_error [of "mx_record ''10''"] mx(2) no_tok
  have "snd (buildRData (mx_record ''10'')) = None
        \<and> Exchange (fst (buildRData (mx_record ''10''))) = []"
    by blast
  ultimately show ?thesis
    using no_int no_tok mx ev1 ev2 by simp
qed

section \<open>From \<open>buildRData\<close> to \<open>GetRecord\<close> and back\<close>







end
